theory Spec2Isabelle
  imports Complex_Main "HOL-Library.Sublist" "HOL-Library.AList"
begin

section \<open>OpenGrowBox: actuator abstraction and predictive control\<close>

text \<open>
  A shallow embedding of \<^verbatim>\<open>OGBDevices/Device.py\<close> (class \<^verbatim>\<open>Device\<close>) and of
  \<^verbatim>\<open>managers/UltraInstinctManager.py\<close> (class \<^verbatim>\<open>UltraInstinctManager\<close>).

  Conventions of the embedding.
  \<^item> Python numbers (unbounded \<^verbatim>\<open>int\<close> and finite \<^verbatim>\<open>float\<close>) are real numbers:
    \<^verbatim>\<open>max\<close>, \<^verbatim>\<open>min\<close>, comparison and \<^verbatim>\<open>int()\<close> are exact on them; the rounding error of
    binary floating-point arithmetic is not modelled.
  \<^item> An attribute that may hold \<^verbatim>\<open>None\<close> is an \<open>option\<close>. An attribute that \<^verbatim>\<open>__init__\<close>
    does not set is an \<open>attr\<close> (absent, or present with its value) where the code
    tells an absent attribute from one that holds \<^verbatim>\<open>None\<close>, and an \<open>option\<close> where every
    reader treats the two alike (\<^verbatim>\<open>hasattr(self, a) and self.a\<close>, \<^verbatim>\<open>getattr\<close> with a falsy
    default).
  \<^item> A method that mutates \<^verbatim>\<open>self\<close> takes the device and returns the new device.
  \<^item> Calls of \<^verbatim>\<open>hass.services.async_call\<close> are appended to a log of effects, in order.
\<close>

subsection \<open>Python values and helpers\<close>

datatype pyfloat = Finite real | Inf | Nan

datatype pyval = PNone | PStr string | PFloat pyfloat

datatype exn = TypeError | ValueError | OverflowError | AttributeError | KeyError | HassError

text \<open>An attribute of an object: absent (\<^verbatim>\<open>hasattr\<close> is false), or present with a value.\<close>

datatype 'a attr = Absent | Present 'a

text \<open>\<^verbatim>\<open>int(x)\<close> on a finite number truncates towards zero.\<close>

definition py_int :: "real \<Rightarrow> int" where
  "py_int x = (if 0 \<le> x then \<lfloor>x\<rfloor> else \<lceil>x\<rceil>)"

text \<open>\<^verbatim>\<open>sub in s\<close> on strings: \<open>sub\<close> occurs in \<open>s\<close> as a contiguous block.\<close>

fun contains :: "string \<Rightarrow> string \<Rightarrow> bool" where
  "contains [] sub = (sub = [])"
| "contains (c # cs) sub = (prefix sub (c # cs) \<or> contains cs sub)"

text \<open>\<^verbatim>\<open>str.lower()\<close>, on ASCII letters.\<close>

definition lower_char :: "char \<Rightarrow> char" where
  "lower_char c =
     (case map_of (zip ''ABCDEFGHIJKLMNOPQRSTUVWXYZ'' ''abcdefghijklmnopqrstuvwxyz'') c of
        Some l \<Rightarrow> l
      | None \<Rightarrow> c)"

definition lower :: "string \<Rightarrow> string" where
  "lower s = map lower_char s"

subsection \<open>The device\<close>

text \<open>An entity of the host platform, as \<^verbatim>\<open>deviceData\<close> lists it.\<close>

record entity =
  entity_id :: string
  "value" :: pyval
  platform :: string

text \<open>
  The attributes of \<^verbatim>\<open>Device\<close> set in \<^verbatim>\<open>__init__\<close>, and those that \<^verbatim>\<open>__init__\<close> does not
  set and the methods below read.
  \<^item> \<^verbatim>\<open>_in_active_control\<close>, \<^verbatim>\<open>_last_turn_on_time\<close>, \<^verbatim>\<open>sunPhaseActive\<close>,
    \<^verbatim>\<open>realHumidifierClass\<close>: read with \<^verbatim>\<open>getattr(..., False)\<close>, \<^verbatim>\<open>getattr(..., 0)\<close> or
    \<^verbatim>\<open>hasattr(...) and ...\<close>; absent is \<open>False\<close>, resp. \<open>None\<close>. \<^verbatim>\<open>pendingWorkMode\<close> is only
    written.
  \<^item> \<^verbatim>\<open>islightON\<close>: \<^verbatim>\<open>WorkMode\<close> tests \<^verbatim>\<open>hasattr(self, 'islightON') and not self.islightON\<close>,
    which is false for an absent attribute and true for one that holds \<^verbatim>\<open>None\<close> (as
    \<^verbatim>\<open>LightUV.__init__\<close> sets it) or \<^verbatim>\<open>False\<close>.
  \<^item> \<^verbatim>\<open>initVoltage\<close>: \<^verbatim>\<open>WorkMode\<close> reads \<^verbatim>\<open>self.initVoltage\<close>, an \<^verbatim>\<open>AttributeError\<close> when
    absent and the value, possibly \<^verbatim>\<open>None\<close>, when present.
  \<^verbatim>\<open>isRunning\<close> is \<^verbatim>\<open>True\<close>, \<^verbatim>\<open>False\<close> or \<^verbatim>\<open>None\<close> (entity unavailable).
\<close>

record device =
  deviceName :: string
  deviceType :: string
  isSpecialDevice :: bool
  isRunning :: "bool option"
  isDimmable :: bool
  isAcInfinDev :: bool
  switches :: "entity list"
  options :: "entity list"
  sensors :: "entity list"
  ogbsettings :: "entity list"
  initialization :: bool
  inWorkMode :: bool
  voltage :: "real option"
  dutyCycle :: "real option"
  minVoltage :: "real option"
  maxVoltage :: "real option"
  minDuty :: "real option"
  maxDuty :: "real option"
  is_minmax_active :: bool
  voltageFromNumber :: bool
  in_active_control :: bool
  last_turn_on_time :: "real option"
  islightON :: "bool option attr"
  sunPhaseActive :: "bool option"
  pendingWorkMode :: "bool option"
  initVoltage :: "real option attr"
  realHumidifierClass :: "bool option"

text \<open>The state of a fresh \<^verbatim>\<open>Device\<close> after the assignments of \<^verbatim>\<open>__init__\<close>.\<close>

definition new_device :: "string \<Rightarrow> string \<Rightarrow> device" where
  "new_device name ty =
     \<lparr> deviceName = name, deviceType = ty, isSpecialDevice = False, isRunning = Some False,
       isDimmable = False, isAcInfinDev = False, switches = [], options = [], sensors = [],
       ogbsettings = [], initialization = False, inWorkMode = False,
       voltage = None, dutyCycle = None, minVoltage = None, maxVoltage = None,
       minDuty = None, maxDuty = None, is_minmax_active = False, voltageFromNumber = False,
       in_active_control = False, last_turn_on_time = None, islightON = Absent,
       sunPhaseActive = None, pendingWorkMode = None, initVoltage = Absent,
       realHumidifierClass = None \<rparr>"

subsection \<open>Bounds enforcer\<close>

text \<open>
  \<^verbatim>\<open>clamp_voltage\<close>: \<^verbatim>\<open>max(minVoltage, min(maxVoltage, value or 0))\<close> when both bounds are
  set, else the value unchanged. \<^verbatim>\<open>value or 0\<close> is 0 for \<^verbatim>\<open>None\<close> (and for 0).
\<close>

definition clamp_voltage :: "device \<Rightarrow> real option \<Rightarrow> real option" where
  "clamp_voltage d v =
     (case (minVoltage d, maxVoltage d) of
        (Some lo, Some hi) \<Rightarrow> Some (max lo (min hi (case v of None \<Rightarrow> 0 | Some x \<Rightarrow> x)))
      | _ \<Rightarrow> v)"

text \<open>
  \<^verbatim>\<open>clamp_duty_cycle\<close>: 50 for \<^verbatim>\<open>None\<close>; else the value clamped between \<^verbatim>\<open>minDuty\<close>
  (default 0) and \<^verbatim>\<open>maxDuty\<close> (default 100), and then \<^verbatim>\<open>int(...)\<close> of that.
\<close>

definition clamp_duty_cycle :: "device \<Rightarrow> real option \<Rightarrow> int" where
  "clamp_duty_cycle d v =
     (case v of
        None \<Rightarrow> 50
      | Some x \<Rightarrow>
          (let min_duty = (case minDuty d of Some lo \<Rightarrow> lo | None \<Rightarrow> 0);
               max_duty = (case maxDuty d of Some hi \<Rightarrow> hi | None \<Rightarrow> 100);
               clamped = max min_duty (min max_duty x)
           in py_int clamped))"

subsection \<open>Capability registry\<close>

text \<open>
  \<^verbatim>\<open>Device.identifyCapabilities\<close> keeps, under the key \<^verbatim>\<open>capabilities\<close> of the data store,
  one entry \<^verbatim>\<open>{"state", "count", "devEntities"}\<close> per capability. The store is a
  collaborator that is not part of the repository's sources; of it the method uses
  \<^verbatim>\<open>get("capabilities")\<close>, \<^verbatim>\<open>getDeep("capabilities.<cap>")\<close> and \<^verbatim>\<open>setDeep\<close> on the same
  paths, modelled as lookup and update in an association list (\<open>None\<close>: the key
  \<^verbatim>\<open>capabilities\<close> is not set).
\<close>

record capability =
  state :: bool
  count :: int
  devEntities :: "string list"

type_synonym caps = "(string \<times> capability) list"

definition capMapping :: "(string \<times> string list) list" where
  "capMapping =
     [(''canHeat'', [''heater'']),
      (''canCool'', [''cooler'']),
      (''canClimate'', [''climate'']),
      (''canHumidify'', [''humidifier'']),
      (''canDehumidify'', [''dehumidifier'']),
      (''canVentilate'', [''ventilation'']),
      (''canExhaust'', [''exhaust'']),
      (''canIntake'', [''intake'']),
      (''canLight'', [''light'']),
      (''canCO2'', [''co2'']),
      (''canPump'', [''pump''])]"

text \<open>The dictionary written when \<^verbatim>\<open>not self.dataStore.get("capabilities")\<close>.\<close>

definition init_capabilities :: caps where
  "init_capabilities = map (\<lambda>(cap, _). (cap, \<lparr>state = False, count = 0, devEntities = []\<rparr>)) capMapping"

text \<open>
  The loop \<^verbatim>\<open>for cap, deviceTypes in capMapping.items()\<close>. A capability whose entry is
  missing makes \<^verbatim>\<open>currentCap["devEntities"]\<close> raise on \<^verbatim>\<open>None\<close>.
\<close>

fun register_caps :: "device \<Rightarrow> (string \<times> string list) list \<Rightarrow> caps \<Rightarrow> exn + caps" where
  "register_caps d [] cs = Inr cs"
| "register_caps d ((cap, deviceTypes) # rest) cs =
     (if lower (deviceType d) \<in> set (map lower deviceTypes) then
        (case map_of cs cap of
           None \<Rightarrow> Inl TypeError
         | Some currentCap \<Rightarrow>
             if deviceName d \<in> set (devEntities currentCap) then register_caps d rest cs
             else register_caps d rest
                    (AList.update cap
                       (currentCap\<lparr>state := True, count := count currentCap + 1,
                                   devEntities := devEntities currentCap @ [deviceName d]\<rparr>) cs))
      else register_caps d rest cs)"

text \<open>The capabilities after the initialisation step: an unset or empty dictionary is falsy.\<close>

definition start_caps :: "caps option \<Rightarrow> caps" where
  "start_caps store = (case store of None \<Rightarrow> init_capabilities | Some [] \<Rightarrow> init_capabilities | Some cs \<Rightarrow> cs)"

definition identifyCapabilities :: "device \<Rightarrow> caps option \<Rightarrow> exn + caps option" where
  "identifyCapabilities d store =
     (if deviceName d = ''ogb'' then Inr store
      else
        (case register_caps d capMapping (start_caps store) of
           Inl e \<Rightarrow> Inl e
         | Inr cs' \<Rightarrow> Inr (Some cs')))"

text \<open>A sequence of registrations, one device after the other on the same store.\<close>

fun register_all :: "device list \<Rightarrow> caps option \<Rightarrow> exn + caps option" where
  "register_all [] store = Inr store"
| "register_all (d # ds) store =
     (case identifyCapabilities d store of Inl e \<Rightarrow> Inl e | Inr store' \<Rightarrow> register_all ds store')"

text \<open>
  The invariant of an entry (\<open>count\<close> is the number of names, no name twice), of the
  store, and auxiliary notions of the proofs: the name is listed under a capability;
  the device is listed under every capability of its type; every capability has an entry;
  the names listed under a capability (an unset store read as the initial dictionary).
\<close>

definition cap_inv :: "capability \<Rightarrow> bool" where
  "cap_inv c = (count c = int (length (devEntities c)) \<and> distinct (devEntities c))"

definition store_inv :: "caps option \<Rightarrow> bool" where
  "store_inv store = (case store of None \<Rightarrow> True | Some cs \<Rightarrow> list_all (\<lambda>(k, c). cap_inv c) cs)"

definition has_name :: "string \<Rightarrow> caps \<Rightarrow> string \<Rightarrow> bool" where
  "has_name n cs k = (case map_of cs k of None \<Rightarrow> False | Some c \<Rightarrow> n \<in> set (devEntities c))"

definition registered :: "device \<Rightarrow> caps option \<Rightarrow> bool" where
  "registered d store =
     (deviceName d = ''ogb'' \<or>
      (case store of
         None \<Rightarrow> False
       | Some cs \<Rightarrow> cs \<noteq> [] \<and>
           list_all (\<lambda>(cap, dts). lower (deviceType d) \<in> set (map lower dts) \<longrightarrow> has_name (deviceName d) cs cap)
             capMapping))"

definition complete_store :: "caps option \<Rightarrow> bool" where
  "complete_store store = list_all (\<lambda>(cap, dts). map_of (start_caps store) cap \<noteq> None) capMapping"

definition names_of :: "caps option \<Rightarrow> string \<Rightarrow> string set" where
  "names_of store cap =
     (case map_of (start_caps store) cap of None \<Rightarrow> {} | Some c \<Rightarrow> set (devEntities c))"

subsection \<open>Entity identification\<close>

text \<open>The values that mark an entity without a usable state.\<close>

definition invalid_values :: "string list" where
  "invalid_values = [''None'', ''unknown'', ''Unbekannt'', ''unavailable'']"

definition evalSensors :: "string \<Rightarrow> bool" where
  "evalSensors sensor_id =
     list_ex (contains sensor_id)
       [''_temperature'', ''_humidity'', ''_dewpoint'', ''_co2'', ''_duty'', ''_moisture'',
        ''_intensity'', ''_ph'', ''_ec'', ''_tds'']"

text \<open>
  The body of the loop of \<^verbatim>\<open>identifySwitchesAndSensors\<close> for one entity. The entity's
  identifier and platform are strings here, so that the \<^verbatim>\<open>except\<close> branch of the method
  (it only resets \<^verbatim>\<open>initialization\<close>) is never taken.
\<close>

definition identify_entity :: "entity \<Rightarrow> device \<Rightarrow> device" where
  "identify_entity e d =
     (if contains (entity_id e) ''ogb_'' then d\<lparr>ogbsettings := ogbsettings d @ [e]\<rparr>
      else
        (let d = (if platform e = ''ac_infinity'' then d\<lparr>isAcInfinDev := True\<rparr> else d);
             d = (if platform e = ''crescontrol'' then d\<lparr>voltageFromNumber := True\<rparr> else d);
             d = (if list_ex (contains (platform e)) [''tasmota'', ''shelly'']
                  then d\<lparr>isSpecialDevice := True\<rparr> else d)
         in if value e \<in> set (map PStr invalid_values) then d
            else if list_ex (\<lambda>p. prefix p (entity_id e))
                      [''switch.'', ''light.'', ''fan.'', ''climate.'', ''humidifier.'']
              then d\<lparr>switches := switches d @ [e]\<rparr>
            else if list_ex (\<lambda>p. prefix p (entity_id e))
                      [''select.'', ''number.'', ''date.'', ''text.'', ''time.'', ''camera.'']
              then d\<lparr>options := options d @ [e]\<rparr>
            else if prefix ''sensor.'' (entity_id e) \<and> evalSensors (entity_id e)
              then d\<lparr>sensors := sensors d @ [e]\<rparr>
            else d))"

definition identifySwitchesAndSensors :: "entity list \<Rightarrow> device \<Rightarrow> device" where
  "identifySwitchesAndSensors entitys d = (fold identify_entity entitys d)\<lparr>initialization := True\<rparr>"

subsection \<open>Control value from feedback\<close>

text \<open>
  \<^verbatim>\<open>float(value)\<close>. On a string it is the parser of the language, which is not part of
  the repository: the functions below take it as the parameter \<open>fl\<close>, \<open>None\<close> standing
  for its \<^verbatim>\<open>ValueError\<close>. \<^verbatim>\<open>float(None)\<close> is a \<^verbatim>\<open>TypeError\<close>.
\<close>

type_synonym float_parser = "string \<Rightarrow> pyfloat option"

definition to_float :: "float_parser \<Rightarrow> pyval \<Rightarrow> exn + pyfloat" where
  "to_float fl v =
     (case v of
        PNone \<Rightarrow> Inl TypeError
      | PStr s \<Rightarrow> (case fl s of None \<Rightarrow> Inl ValueError | Some f \<Rightarrow> Inr f)
      | PFloat f \<Rightarrow> Inr f)"

text \<open>
  The local function \<^verbatim>\<open>convert_to_int\<close>: \<^verbatim>\<open>ValueError\<close> and \<^verbatim>\<open>TypeError\<close> are caught and
  give \<^verbatim>\<open>None\<close>; \<^verbatim>\<open>int\<close> of a NaN is a \<^verbatim>\<open>ValueError\<close>, \<^verbatim>\<open>int\<close> of an infinity is an
  \<^verbatim>\<open>OverflowError\<close>, which is not caught.
\<close>

definition convert_to_int :: "float_parser \<Rightarrow> pyval \<Rightarrow> bool \<Rightarrow> exn + int option" where
  "convert_to_int fl v multiply_by_10 =
     (case to_float fl v of
        Inl e \<Rightarrow> Inr None
      | Inr Nan \<Rightarrow> Inr None
      | Inr Inf \<Rightarrow> Inl OverflowError
      | Inr (Finite float_value) \<Rightarrow>
          Inr (Some (py_int (if multiply_by_10 then float_value * 10 else float_value))))"

definition relevant_keys :: "string list" where
  "relevant_keys = [''_duty'', ''_intensity'', ''_dutyCycle'']"

text \<open>
  The tests \<^verbatim>\<open>any(key in sensor["entity_id"].lower() for key in relevant_keys)\<close> and
  \<^verbatim>\<open>any(key in option["entity_id"] for key in relevant_keys)\<close>.
\<close>

definition relevant_sensor :: "entity \<Rightarrow> bool" where
  "relevant_sensor sensor = list_ex (contains (lower (entity_id sensor))) relevant_keys"

definition relevant_option :: "entity \<Rightarrow> bool" where
  "relevant_option option = list_ex (contains (entity_id option)) relevant_keys"

text \<open>The body of the loop over \<^verbatim>\<open>self.sensors\<close> in \<^verbatim>\<open>checkForControlValue\<close>.\<close>

definition sensor_step :: "float_parser \<Rightarrow> entity \<Rightarrow> device \<Rightarrow> exn + device" where
  "sensor_step fl sensor d =
     (if relevant_sensor sensor then
        (if value sensor = PNone then Inr d
         else case convert_to_int fl (value sensor) (isAcInfinDev d) of
                Inl e \<Rightarrow> Inl e
              | Inr None \<Rightarrow> Inr d
              | Inr (Some converted_value) \<Rightarrow>
                  (if deviceType d = ''Light'' then
                     (let d = d\<lparr>voltage := Some (of_int converted_value)\<rparr>
                      in case (minVoltage d, maxVoltage d) of
                           (Some lo, Some hi) \<Rightarrow>
                             if lo > 0 \<or> hi < 100
                             then Inr (d\<lparr>voltage := clamp_voltage d (voltage d)\<rparr>) else Inr d
                         | _ \<Rightarrow> Inr d)
                   else if deviceType d \<in> set [''Exhaust'', ''Intake'', ''Ventilation'',
                                                 ''Humidifier'', ''Dehumidifier''] then
                     (let d = d\<lparr>dutyCycle := Some (of_int converted_value)\<rparr>
                      in case (minDuty d, maxDuty d) of
                           (Some lo, Some hi) \<Rightarrow>
                             if lo > 0 \<or> hi < 100
                             then Inr (d\<lparr>dutyCycle := Some (max lo (min hi (of_int converted_value)))\<rparr>)
                             else Inr d
                         | _ \<Rightarrow> Inr d)
                   else Inr d))
      else Inr d)"

fun sensors_loop :: "float_parser \<Rightarrow> entity list \<Rightarrow> device \<Rightarrow> exn + device" where
  "sensors_loop fl [] d = Inr d"
| "sensors_loop fl (sensor # rest) d =
     (case sensor_step fl sensor d of Inl e \<Rightarrow> Inl e | Inr d' \<Rightarrow> sensors_loop fl rest d')"

text \<open>
  The body of the loop over \<^verbatim>\<open>self.options\<close>; the flag of the result says that the method
  returned from inside the loop.
\<close>

definition option_step :: "float_parser \<Rightarrow> entity \<Rightarrow> device \<Rightarrow> exn + device \<times> bool" where
  "option_step fl option d =
     (if relevant_option option then
        (if deviceType d = ''Light'' then
           (let d = d\<lparr>voltageFromNumber := True\<rparr>;
                multiply_by_10 = (isAcInfinDev d \<or> voltageFromNumber d)
            in case convert_to_int fl (value option) multiply_by_10 of
                 Inl e \<Rightarrow> Inl e
               | Inr None \<Rightarrow> Inr (d, False)
               | Inr (Some converted_value) \<Rightarrow>
                   (let d = d\<lparr>voltage := Some (of_int converted_value)\<rparr>
                    in case (minVoltage d, maxVoltage d) of
                         (Some lo, Some hi) \<Rightarrow>
                           if is_minmax_active d
                           then Inr (d\<lparr>voltage := clamp_voltage d (voltage d)\<rparr>, True)
                           else Inr (d, True)
                       | _ \<Rightarrow> Inr (d, True)))
         else
           (case convert_to_int fl (value option) (isAcInfinDev d) of
              Inl e \<Rightarrow> Inl e
            | Inr None \<Rightarrow> Inr (d, False)
            | Inr (Some converted_value) \<Rightarrow>
                (let d = d\<lparr>dutyCycle := Some (of_int converted_value)\<rparr>
                 in case (minDuty d, maxDuty d) of
                      (Some lo, Some hi) \<Rightarrow>
                        if is_minmax_active d
                        then Inr (d\<lparr>dutyCycle := Some (max lo (min hi (of_int converted_value)))\<rparr>, True)
                        else Inr (d, True)
                    | _ \<Rightarrow> Inr (d, True))))
      else Inr (d, False))"

fun options_loop :: "float_parser \<Rightarrow> entity list \<Rightarrow> device \<Rightarrow> exn + device" where
  "options_loop fl [] d = Inr d"
| "options_loop fl (option # rest) d =
     (case option_step fl option d of
        Inl e \<Rightarrow> Inl e
      | Inr (d', returned) \<Rightarrow> if returned then Inr d' else options_loop fl rest d')"

text \<open>
  \<^verbatim>\<open>checkForControlValue\<close>. An exception leaves the method; the attributes written before
  it are not part of the result.
\<close>

definition checkForControlValue :: "float_parser \<Rightarrow> device \<Rightarrow> exn + device" where
  "checkForControlValue fl d =
     (if in_active_control d then Inr d
      else if \<not> isDimmable d then Inr d
      else if sensors d = [] \<and> options d = [] then Inr d
      else case sensors_loop fl (sensors d) d of
             Inl e \<Rightarrow> Inl e
           | Inr d' \<Rightarrow> options_loop fl (options d') d')"



text \<open>
  An instance of the parser for the examples: it reads a non-empty string of decimal
  digits and rejects every other string.
\<close>

definition digits_parser :: float_parser where
  "digits_parser s =
     (if s \<noteq> [] \<and> list_all (\<lambda>c. 48 \<le> (of_char c :: nat) \<and> (of_char c :: nat) \<le> 57) s
      then Some (Finite (real (foldl (\<lambda>acc c. acc * 10 + (of_char c - 48)) 0 s)))
      else None)"

subsection \<open>Actuation: the host platform\<close>

text \<open>
  A call \<^verbatim>\<open>hass.services.async_call(domain, service, service_data)\<close>: domain, service,
  the \<^verbatim>\<open>entity_id\<close> of the data and the one further item of the data, if any.
\<close>

datatype service_data =
    NoData
  | DataOption string
  | DataValue real
  | DataBrightnessPct real
  | DataPercentage real
  | DataHvacMode string

datatype call = Service string string string service_data

text \<open>
  What a method does to the outside, in order: service calls (a call that raises is
  logged too: it was issued) and events given to \<^verbatim>\<open>eventManager.emit\<close>.
\<close>

datatype effect = Call call | Emit string

text \<open>
  The host: \<open>states\<close> is \<^verbatim>\<open>hass.states.get(entity_id).state\<close> (\<open>None\<close>: no such state
  object), \<open>failing\<close> says which service calls raise.
\<close>

record hass =
  states :: "string \<Rightarrow> string option"
  failing :: "call \<Rightarrow> bool"

text \<open>How a loop body ends: with the next iteration, a \<^verbatim>\<open>return\<close>, or an exception.\<close>

datatype outcome = Next | Return | Raise exn

type_synonym step_result = "device \<times> effect list \<times> outcome"

text \<open>A \<^verbatim>\<open>for\<close> loop over entity ids whose body may return or raise.\<close>

fun run_loop :: "(string \<Rightarrow> device \<Rightarrow> step_result) \<Rightarrow> string list \<Rightarrow> device \<Rightarrow> step_result" where
  "run_loop body [] d = (d, [], Next)"
| "run_loop body (i # ids) d =
     (case body i d of
        (d', es, Next) \<Rightarrow> (case run_loop body ids d' of (d'', es', out) \<Rightarrow> (d'', es @ es', out))
      | (d', es, out) \<Rightarrow> (d', es, out))"

text \<open>
  One service call followed by \<^verbatim>\<open>self.isRunning = running\<close> and the given end of the
  iteration; when the call raises, the assignment is not reached.
\<close>

definition call_then :: "hass \<Rightarrow> call \<Rightarrow> bool \<Rightarrow> outcome \<Rightarrow> device \<Rightarrow> step_result" where
  "call_then h c running out d =
     (if failing h c then (d, [Call c], Raise HassError)
      else (d\<lparr>isRunning := Some running\<rparr>, [Call c], out))"

text \<open>\<^verbatim>\<open>_is_device_online\<close>.\<close>

definition is_device_online :: "hass \<Rightarrow> device \<Rightarrow> bool" where
  "is_device_online h d =
     list_all (\<lambda>switch.
        entity_id switch = [] \<or>
        (case states h (entity_id switch) of
           None \<Rightarrow> True
         | Some st \<Rightarrow> st \<notin> set [''unavailable'', ''unknown'', ''None'']))
       (switches d)"

text \<open>
  \<^verbatim>\<open>set_value\<close>: the first option entity with \<^verbatim>\<open>duty\<close> or \<^verbatim>\<open>intensity\<close> in its id gets
  the value; the method catches the exception of its call.
\<close>

definition set_value :: "hass \<Rightarrow> real \<Rightarrow> device \<Rightarrow> effect list" where
  "set_value h v d =
     (case filter (\<lambda>option. contains (entity_id option) ''duty'' \<or>
                             contains (entity_id option) ''intensity'') (options d) of
        [] \<Rightarrow> []
      | option # _ \<Rightarrow>
          [Call (Service ''number'' ''set_value'' (entity_id option)
                   (DataValue (if isAcInfinDev d then of_int (py_int v) else v)))])"

text \<open>
  The entity ids of the AcInfinity branch of \<^verbatim>\<open>turn_on\<close> and \<^verbatim>\<open>turn_off\<close>: the
  \<^verbatim>\<open>select.\<close> switches, and if there is none, the \<^verbatim>\<open>select.\<close> options.
\<close>

definition select_entity_ids :: "device \<Rightarrow> string list" where
  "select_entity_ids d =
     (let ids = filter (\<lambda>i. contains i ''select.'') (map entity_id (switches d))
      in if ids = [] then filter (\<lambda>i. contains i ''select.'') (map entity_id (options d)) else ids)"

text \<open>
  A host for the examples: no entity has a state object (every device counts as online)
  and no service call raises.
\<close>

definition quiet_hass :: hass where
  "quiet_hass = \<lparr> states = (\<lambda>i. None), failing = (\<lambda>c. False) \<rparr>"


subsection \<open>Actuation: \<^verbatim>\<open>turn_on\<close>\<close>

text \<open>
  The keyword arguments that the callers in the repository pass, as numbers or absent.
\<close>

record kwargs =
  brightness_pct :: "real option"
  percentage :: "real option"
  hvac_mode :: "string option"

definition no_kwargs :: kwargs where
  "no_kwargs = \<lparr> brightness_pct = None, percentage = None, hvac_mode = None \<rparr>"

definition light_types :: "string list" where
  "light_types = [''Light'', ''LightFarRed'', ''LightUV'', ''LightBlue'', ''LightRed'']"

text \<open>The value of \<^verbatim>\<open>brightness_pct\<close> and of \<^verbatim>\<open>percentage\<close> after their validation.\<close>

definition effective_brightness :: "kwargs \<Rightarrow> device \<Rightarrow> real" where
  "effective_brightness kw d =
     (case brightness_pct kw of
        Some b \<Rightarrow> max 0 (min 100 b)
      | None \<Rightarrow>
          (if deviceType d \<in> set light_types \<and> voltage d \<noteq> None then the (voltage d)
           else if isSpecialDevice d \<and> dutyCycle d \<noteq> None then the (dutyCycle d)
           else 100))"

definition effective_percentage :: "kwargs \<Rightarrow> device \<Rightarrow> real" where
  "effective_percentage kw d =
     (case percentage kw of
        Some p \<Rightarrow> p
      | None \<Rightarrow>
          (if deviceType d \<in> {''Exhaust'', ''Intake'', ''Ventilation''} \<and> dutyCycle d \<noteq> None
           then the (dutyCycle d)
           else 100))"

text \<open>The body of the loop of the AcInfinity branch of \<^verbatim>\<open>turn_on\<close>.\<close>

definition ac_on_step :: "hass \<Rightarrow> real \<Rightarrow> real \<Rightarrow> string \<Rightarrow> device \<Rightarrow> step_result" where
  "ac_on_step h b p i d =
     (let c = Service ''select'' ''select_option'' i (DataOption ''On'')
      in if failing h c then (d, [Call c], Raise HassError)
         else if deviceType d \<in> set [''Light'', ''Humidifier'', ''Deumidifier'', ''Exhaust'',
                                       ''Intake'', ''Ventilation'']
           then (if deviceType d = ''Light''
                 then (d\<lparr>isRunning := Some True\<rparr>,
                       Call c # set_value h (of_int (py_int (b / 10))) d, Return)
                 else (d\<lparr>isRunning := Some True\<rparr>, Call c # set_value h (p / 10) d, Return))
         else (d, [Call c], Next))"

text \<open>The body of the loop over the switches of \<^verbatim>\<open>turn_on\<close>.\<close>

definition on_step :: "hass \<Rightarrow> kwargs \<Rightarrow> real \<Rightarrow> real \<Rightarrow> string \<Rightarrow> device \<Rightarrow> step_result" where
  "on_step h kw b p i d =
     (if deviceType d = ''Climate'' then
        call_then h (Service ''climate'' ''set_hvac_mode'' i
          (DataHvacMode (case hvac_mode kw of None \<Rightarrow> ''heat'' | Some m \<Rightarrow> m))) True Return d
      else if deviceType d = ''Humidifier'' then
        (if realHumidifierClass d = Some True
         then call_then h (Service ''humidifier'' ''turn_on'' i NoData) True Return d
         else call_then h (Service ''switch'' ''turn_on'' i NoData) True Return d)
      else if deviceType d = ''Deumidifier'' then
        call_then h (Service ''switch'' ''turn_on'' i NoData) True Return d
      else if deviceType d \<in> set light_types then
        (if isDimmable d then
           (if voltageFromNumber d then
              (let c = Service ''switch'' ''turn_on'' i NoData
               in if failing h c then (d, [Call c], Raise HassError)
                  else (d\<lparr>isRunning := Some True\<rparr>, Call c # set_value h (b / 10) d, Return))
            else
              call_then h (Service ''light'' ''turn_on'' i
                (DataBrightnessPct (of_int (py_int (max 0 (min 100 b)))))) True Return d)
         else call_then h (Service ''switch'' ''turn_on'' i NoData) True Return d)
      else if deviceType d = ''Exhaust'' \<or> deviceType d = ''Intake'' then
        (if isSpecialDevice d then
           (if isDimmable d
            then call_then h (Service ''light'' ''turn_on'' i (DataBrightnessPct b)) True Return d
            else call_then h (Service ''switch'' ''turn_on'' i NoData) True Return d)
         else if isDimmable d
           then call_then h (Service ''fan'' ''set_percentage'' i (DataPercentage p)) True Return d
         else call_then h (Service ''switch'' ''turn_on'' i NoData) True Return d)
      else if deviceType d = ''Ventilation'' then
        (if isSpecialDevice d
         then call_then h (Service ''light'' ''turn_on'' i (DataBrightnessPct b)) True Next d
         else if isDimmable d
           then call_then h (Service ''fan'' ''set_percentage'' i (DataPercentage p)) True Next d
         else call_then h (Service ''switch'' ''turn_on'' i NoData) True Next d)
      else if deviceType d = ''CO2'' then
        (if isDimmable d
         then call_then h (Service ''fan'' ''set_percentage'' i (DataPercentage p)) True Return d
         else call_then h (Service ''switch'' ''turn_on'' i NoData) True Return d)
      else call_then h (Service ''switch'' ''turn_on'' i NoData) True Return d)"

text \<open>
  The part of \<^verbatim>\<open>turn_on\<close> after the rate limit: the AcInfinity branch, then, unless it
  returned or raised, the loop over the switches.
\<close>

definition turn_on_body :: "hass \<Rightarrow> kwargs \<Rightarrow> device \<Rightarrow> step_result" where
  "turn_on_body h kw d =
     (let b = effective_brightness kw d; p = effective_percentage kw d
      in case (if isAcInfinDev d then run_loop (ac_on_step h b p) (select_entity_ids d) d
               else (d, [], Next)) of
           (d', es, Next) \<Rightarrow>
             (case run_loop (on_step h kw b p) (map entity_id (switches d')) d' of
                (d'', es', out) \<Rightarrow> (d'', es @ es', out))
         | (d', es, out) \<Rightarrow> (d', es, out))"

text \<open>
  \<^verbatim>\<open>turn_on\<close>, called when \<^verbatim>\<open>time.time()\<close> is \<open>now\<close>. The method catches every exception
  of its body and always ends with \<^verbatim>\<open>_in_active_control = False\<close>; the result is the
  device and the effects.
\<close>

definition turn_on :: "hass \<Rightarrow> real \<Rightarrow> kwargs \<Rightarrow> device \<Rightarrow> device \<times> effect list" where
  "turn_on h now kw d =
     (if \<not> is_device_online h d then (d\<lparr>in_active_control := False\<rparr>, [])
      else if now - (case last_turn_on_time d of None \<Rightarrow> 0 | Some t \<Rightarrow> t) < 3
        then (d\<lparr>in_active_control := False\<rparr>, [])
      else
        (case turn_on_body h kw (d\<lparr>in_active_control := True, last_turn_on_time := Some now\<rparr>) of
           (d', es, out) \<Rightarrow> (d'\<lparr>in_active_control := False\<rparr>, es)))"

subsection \<open>Actuation: \<^verbatim>\<open>turn_off\<close>\<close>

text \<open>The body of the loop of the AcInfinity branch of \<^verbatim>\<open>turn_off\<close>.\<close>

definition ac_off_step :: "hass \<Rightarrow> string \<Rightarrow> device \<Rightarrow> step_result" where
  "ac_off_step h i d =
     (let c = Service ''select'' ''select_option'' i (DataOption ''Off'');
          c0 = Service ''number'' ''set_value'' i (DataValue 0)
      in if failing h c then (d, [Call c], Raise HassError)
         else if deviceType d \<in> set [''Light'', ''Humidifier'', ''Exhaust'', ''Ventilation'']
           then (if failing h c0 then (d\<lparr>isRunning := Some False\<rparr>, [Call c, Call c0], Raise HassError)
                 else (d\<lparr>isRunning := Some False\<rparr>, [Call c, Call c0], Next))
         else (d\<lparr>isRunning := Some False\<rparr>, [Call c], Next))"

text \<open>The body of the loop over the switches of \<^verbatim>\<open>turn_off\<close>.\<close>

definition off_step :: "hass \<Rightarrow> string \<Rightarrow> device \<Rightarrow> step_result" where
  "off_step h i d =
     (if deviceType d = ''Climate'' then
        call_then h (Service ''climate'' ''set_hvac_mode'' i (DataHvacMode ''off'')) False Return d
      else if deviceType d = ''Humidifier'' then
        call_then h (Service ''switch'' ''turn_off'' i NoData) False Return d
      else if deviceType d = ''Light'' then
        (if isDimmable d then
           (let c = Service ''light'' ''turn_off'' i NoData
            in if failing h c then (d, [Call c], Raise HassError)
               else (d\<lparr>isRunning := Some False, voltage := Some 0\<rparr>, [Call c], Return))
         else call_then h (Service ''switch'' ''turn_off'' i NoData) False Return d)
      else if deviceType d = ''Exhaust'' then
        (if isDimmable d then (d, [], Return)
         else call_then h (Service ''switch'' ''turn_off'' i NoData) False Return d)
      else if deviceType d = ''Intake'' then
        (if isDimmable d then (d, [], Return)
         else call_then h (Service ''switch'' ''turn_off'' i NoData) False Return d)
      else if deviceType d = ''Ventilation'' then
        (if isSpecialDevice d
         then call_then h (Service ''light'' ''turn_off'' i NoData) False Next d
         else if isDimmable d
           then call_then h (Service ''fan'' ''turn_off'' i NoData) False Next d
         else call_then h (Service ''switch'' ''turn_off'' i NoData) False Next d)
      else if deviceType d = ''CO2'' then
        (if isDimmable d then (d, [], Return)
         else call_then h (Service ''switch'' ''turn_off'' i NoData) False Return d)
      else call_then h (Service ''switch'' ''turn_off'' i NoData) False Return d)"

text \<open>
  \<^verbatim>\<open>turn_off\<close>: the AcInfinity branch returns after its loop; the method catches every
  exception of its body.
\<close>

definition turn_off :: "hass \<Rightarrow> device \<Rightarrow> device \<times> effect list" where
  "turn_off h d =
     (if isAcInfinDev d
      then (case run_loop (ac_off_step h) (select_entity_ids d) d of (d', es, out) \<Rightarrow> (d', es))
      else (case run_loop (off_step h) (map entity_id (switches d)) d of (d', es, out) \<Rightarrow> (d', es)))"

subsection \<open>The work mode\<close>

definition special_light_types :: "string list" where
  "special_light_types = [''LightFarRed'', ''LightUV'', ''LightBlue'', ''LightRed'', ''LightSpectrum'']"

text \<open>
  \<^verbatim>\<open>WorkMode(workmode)\<close>. It calls \<^verbatim>\<open>turn_on\<close> at most twice; \<open>t1\<close> and \<open>t2\<close> are the
  readings of the clock in the first and in the second of these calls. The method catches
  nothing: the result holds the device, the effects, and the exception that left the
  method, if any (an absent \<^verbatim>\<open>initVoltage\<close>, or \<^verbatim>\<open>float(None)\<close> for a missing duty bound).

  The first test, \<^verbatim>\<open>hasattr(self, 'islightON') and not self.islightON\<close>, holds when the
  attribute is present and holds \<^verbatim>\<open>None\<close> or \<^verbatim>\<open>False\<close>.
\<close>

definition light_is_off :: "device \<Rightarrow> bool" where
  "light_is_off d = (case islightON d of Absent \<Rightarrow> False | Present v \<Rightarrow> v \<noteq> Some True)"

definition WorkMode :: "hass \<Rightarrow> real \<Rightarrow> real \<Rightarrow> bool \<Rightarrow> device \<Rightarrow> device \<times> effect list \<times> exn option" where
  "WorkMode h t1 t2 workmode d0 =
     (if light_is_off d0 then
        (if deviceType d0 \<in> set special_light_types then (d0, [], None)
         else (d0\<lparr>pendingWorkMode := Some workmode\<rparr>, [], None))
      else
        (let d = d0\<lparr>inWorkMode := workmode\<rparr>
         in if workmode then
              (if isDimmable d then
                 (if deviceType d = ''Light'' then
                    (if sunPhaseActive d = Some True then (d, [Emit ''pauseSunPhase''], None)
                     else
                       (case (if minVoltage d \<noteq> None \<and> maxVoltage d \<noteq> None
                              then Present (minVoltage d) else initVoltage d) of
                          Absent \<Rightarrow> (d, [], Some AttributeError)
                        | Present v \<Rightarrow>
                            (case turn_on h t1 (no_kwargs\<lparr>brightness_pct := v\<rparr>)
                                    (d\<lparr>voltage := v\<rparr>) of
                               (d', es) \<Rightarrow> (d', es, None))))
                  else if deviceType d \<in> set special_light_types then (d, [], None)
                  else
                    (let d = d\<lparr>dutyCycle := minDuty d\<rparr>
                     in case minDuty d of
                          None \<Rightarrow> (d, [], Some TypeError)
                        | Some lo \<Rightarrow>
                            (if isSpecialDevice d then
                               (case turn_on h t1 (no_kwargs\<lparr>brightness_pct := Some (of_int (py_int lo))\<rparr>) d of
                                  (d1, es1) \<Rightarrow>
                                    (case turn_on h t2 (no_kwargs\<lparr>percentage := Some (of_int (py_int lo))\<rparr>) d1 of
                                       (d2, es2) \<Rightarrow> (d2, es1 @ es2, None)))
                             else
                               (case turn_on h t1 (no_kwargs\<lparr>percentage := Some (of_int (py_int lo))\<rparr>) d of
                                  (d1, es1) \<Rightarrow> (d1, es1, None)))))
               else
                 (if deviceType d = ''Light'' \<or> deviceType d = ''Pump'' \<or> deviceType d = ''Sensor''
                  then (d, [], None)
                  else (case turn_off h d of (d', es) \<Rightarrow> (d', es, None))))
            else
              (if isDimmable d then
                 (if deviceType d = ''Light'' then
                    (if sunPhaseActive d = Some True then (d, [Emit ''resumeSunPhase''], None)
                     else
                       (let d = d\<lparr>voltage := maxVoltage d\<rparr>
                        in if isRunning d = Some True
                           then (case turn_on h t1 (no_kwargs\<lparr>brightness_pct := maxVoltage d\<rparr>) d of
                                   (d', es) \<Rightarrow> (d', es, None))
                           else (d, [], None)))
                  else
                    (let d = d\<lparr>dutyCycle := maxDuty d\<rparr>
                     in if isRunning d = Some True then
                          (case maxDuty d of
                             None \<Rightarrow> (d, [], Some TypeError)
                           | Some hi \<Rightarrow>
                               (if isSpecialDevice d then
                                  (case turn_on h t1 (no_kwargs\<lparr>brightness_pct := Some (of_int (py_int hi))\<rparr>) d of
                                     (d1, es1) \<Rightarrow>
                                       (case turn_on h t2 (no_kwargs\<lparr>percentage := Some (of_int (py_int hi))\<rparr>) d1 of
                                          (d2, es2) \<Rightarrow> (d2, es1 @ es2, None)))
                                else
                                  (case turn_on h t1 (no_kwargs\<lparr>percentage := Some (of_int (py_int hi))\<rparr>) d of
                                     (d1, es1) \<Rightarrow> (d1, es1, None))))
                        else (d, [], None)))
               else
                 (if deviceType d = ''Light'' \<or> deviceType d = ''Pump'' \<or> deviceType d = ''Sensor''
                  then (d, [], None)
                  else if isRunning d = Some True
                    then (case turn_on h t1 no_kwargs d of (d', es) \<Rightarrow> (d', es, None))
                  else (d, [], None)))))"

subsection \<open>Auxiliary predicates on \<^verbatim>\<open>turn_on\<close>\<close>

text \<open>
  The loops of \<^verbatim>\<open>turn_on\<close> write the running flag only; \<open>kept\<close> lists the attributes
  whose preservation the proofs below use.
\<close>

definition kept :: "device \<Rightarrow> device \<Rightarrow> bool" where
  "kept d d' =
     (voltage d' = voltage d \<and> dutyCycle d' = dutyCycle d \<and>
      last_turn_on_time d' = last_turn_on_time d \<and> deviceType d' = deviceType d \<and>
      isAcInfinDev d' = isAcInfinDev d \<and> switches d' = switches d)"

text \<open>
  A call of \<^verbatim>\<open>turn_on\<close> at \<open>now\<close> is accepted: the device is online and the last
  accepted call is at least 3 seconds back.
\<close>

definition accepted :: "hass \<Rightarrow> real \<Rightarrow> device \<Rightarrow> bool" where
  "accepted h now d =
     (is_device_online h d \<and> 3 \<le> now - (case last_turn_on_time d of None \<Rightarrow> 0 | Some t \<Rightarrow> t))"

subsection \<open>Predictive controller: sensor history and gradients\<close>

text \<open>
  The dictionary returned by \<^verbatim>\<open>_get_sensor_data\<close>: every key is present, a reading that
  the store does not hold is \<^verbatim>\<open>None\<close>. (The key \<^verbatim>\<open>light_intensity\<close> is the field
  \<open>tent_light_intensity\<close> here.) A history entry adds \<^verbatim>\<open>timestamp\<close>, the wall clock
  \<^verbatim>\<open>datetime.now()\<close> in seconds.
\<close>

record sensor_data =
  temperature :: "real option"
  humidity :: "real option"
  vpd :: "real option"
  co2 :: "real option"
  tent_light_intensity :: "real option"
  tent_temp :: "real option"
  tent_hum :: "real option"
  ambient_temp :: "real option"
  ambient_hum :: "real option"
  outside_temp :: "real option"
  outside_hum :: "real option"

record sample = sensor_data +
  timestamp :: real

record gradients =
  outside_to_ambient_temp :: real
  outside_to_ambient_hum :: real
  ambient_to_tent_temp :: real
  ambient_to_tent_hum :: real
  temp_trend :: real
  hum_trend :: real

text \<open>Truth value of a reading: \<^verbatim>\<open>None\<close> and 0 are falsy.\<close>

definition truthy :: "real option \<Rightarrow> bool" where
  "truthy v = (case v of None \<Rightarrow> False | Some x \<Rightarrow> x \<noteq> 0)"

text \<open>\<^verbatim>\<open>a or b\<close> on readings.\<close>

definition py_or :: "real option \<Rightarrow> real option \<Rightarrow> real option" where
  "py_or a b = (if truthy a then a else b)"

text \<open>\<^verbatim>\<open>_update_sensor_history\<close>: append, then drop the oldest entry beyond the capacity.\<close>

definition update_sensor_history :: "nat \<Rightarrow> real \<Rightarrow> sensor_data \<Rightarrow> sample list \<Rightarrow> sample list" where
  "update_sensor_history gradient_history_size now sd h =
     (let h' = h @ [sensor_data.extend sd (sample.fields now)]
      in if length h' > gradient_history_size then tl h' else h')"

text \<open>
  One inter-layer gradient of \<^verbatim>\<open>_calculate_gradients\<close>: the difference of two readings
  of the latest entry over the elapsed hours, 0 when a reading is \<^verbatim>\<open>None\<close> or the
  elapsed time is not positive.
\<close>

definition layer_gradient :: "real option \<Rightarrow> real option \<Rightarrow> real \<Rightarrow> real" where
  "layer_gradient a b time_delta_hours =
     (case (a, b) of
        (Some x, Some y) \<Rightarrow> (if time_delta_hours > 0 then (x - y) / time_delta_hours else 0)
      | _ \<Rightarrow> 0)"

text \<open>
  The trend loop \<^verbatim>\<open>for i in range(len - 1, max(0, len - 4), -1)\<close>: the rates of change
  of one reading \<open>q\<close> between the entries \<open>i - 1\<close> and \<open>i\<close>, newest pair first; a pair
  counts when its time step is positive and both readings are truthy.
\<close>

definition trend_changes :: "(sample \<Rightarrow> real option) \<Rightarrow> sample list \<Rightarrow> real list" where
  "trend_changes q h =
     concat (map (\<lambda>i.
        (let curr = h ! i; prev = h ! (i - 1);
             dt = (timestamp curr - timestamp prev) / 3600
         in if i > 0 \<and> dt > 0 \<and> truthy (q curr) \<and> truthy (q prev)
            then [(the (q curr) - the (q prev)) / dt] else []))
       (rev [Suc (length h - 4) ..< length h]))"

definition average :: "real list \<Rightarrow> real" where
  "average xs = (if xs = [] then 0 else sum_list xs / real (length xs))"

definition zero_gradients :: gradients where
  "zero_gradients =
     \<lparr> outside_to_ambient_temp = 0, outside_to_ambient_hum = 0, ambient_to_tent_temp = 0,
       ambient_to_tent_hum = 0, temp_trend = 0, hum_trend = 0 \<rparr>"

definition time_delta_hours :: "sample list \<Rightarrow> real" where
  "time_delta_hours h =
     (let d = (timestamp (last h) - timestamp (hd h)) / 3600 in if d = 0 then 1/2 else d)"

definition calculate_gradients :: "sample list \<Rightarrow> gradients" where
  "calculate_gradients h =
     (if length h < 2 then zero_gradients
      else
        (let latest = last h; dt = time_delta_hours h
         in \<lparr> outside_to_ambient_temp = layer_gradient (outside_temp latest) (ambient_temp latest) dt,
              outside_to_ambient_hum = layer_gradient (outside_hum latest) (ambient_hum latest) dt,
              ambient_to_tent_temp = layer_gradient (ambient_temp latest) (tent_temp latest) dt,
              ambient_to_tent_hum = layer_gradient (ambient_hum latest) (tent_hum latest) dt,
              temp_trend = (if length h \<ge> 3 then average (trend_changes tent_temp h) else 0),
              hum_trend = (if length h \<ge> 3 then average (trend_changes tent_hum h) else 0) \<rparr>))"

text \<open>
  The reading of C2: the change of one quantity between the oldest and the newest entry,
  over the elapsed hours between the two (0.5 for no elapsed time). It follows the words
  of the specification, not the code, and serves only for the comparison.
\<close>

definition claimed_gradient :: "(sample \<Rightarrow> real option) \<Rightarrow> sample list \<Rightarrow> real" where
  "claimed_gradient q h =
     (case (q (last h), q (hd h)) of
        (Some newest, Some oldest) \<Rightarrow> (newest - oldest) / time_delta_hours h
      | _ \<Rightarrow> 0)"

subsection \<open>Predictive controller: prediction and targets\<close>

record predictive =
  temp_predicted_change :: real
  hum_predicted_change :: real
  exhaust_pre_adjust :: real

text \<open>
  \<^verbatim>\<open>_calculate_predictive_factors\<close>. The parameters are \<^verbatim>\<open>prediction_window_minutes\<close> and
  \<^verbatim>\<open>outside_ambient_inertia\<close>; \<^verbatim>\<open>ambient_tent_inertia\<close> only enters values that the method
  computes and does not use.
\<close>

definition calculate_predictive_factors ::
    "real \<Rightarrow> real \<Rightarrow> sensor_data \<Rightarrow> gradients \<Rightarrow> predictive" where
  "calculate_predictive_factors prediction_window_minutes outside_ambient_inertia sd g =
     (let window_hours = prediction_window_minutes / 60;
          tent_temp' = py_or (tent_temp sd) (temperature sd);
          tent_hum' = py_or (tent_hum sd) (humidity sd);
          temp_factor =
            (case (outside_temp sd, ambient_temp sd, tent_temp') of
               (Some ot, Some a, Some t) \<Rightarrow>
                 (let outside_influence = outside_to_ambient_temp g * outside_ambient_inertia;
                      predicted_ambient_temp = a + outside_influence * window_hours;
                      temp_change_from_ambient = (predicted_ambient_temp - a) * (3/10);
                      temp_change_from_trend = temp_trend g * window_hours;
                      predicted_tent_temp = t + temp_change_from_ambient + temp_change_from_trend
                  in predicted_tent_temp - t)
             | _ \<Rightarrow> 0);
          exhaust_factor =
            (case (outside_temp sd, ambient_temp sd, tent_temp') of
               (Some ot, Some a, Some t) \<Rightarrow>
                 (if temp_factor > 1/2 then min 15 (temp_factor * 5)
                  else if temp_factor < - (1/2) then max (-10) (temp_factor * 3)
                  else 0)
             | _ \<Rightarrow> 0);
          hum_factor =
            (case (outside_hum sd, ambient_hum sd, tent_hum') of
               (Some oh, Some a, Some t) \<Rightarrow>
                 (let outside_influence_hum = outside_to_ambient_hum g * outside_ambient_inertia;
                      predicted_ambient_hum = a + outside_influence_hum * window_hours;
                      hum_change_from_ambient = (predicted_ambient_hum - a) * (4/10);
                      hum_change_from_trend = hum_trend g * window_hours;
                      predicted_tent_hum = t + hum_change_from_ambient + hum_change_from_trend
                  in predicted_tent_hum - t)
             | _ \<Rightarrow> 0)
      in \<lparr> temp_predicted_change = temp_factor, hum_predicted_change = hum_factor,
           exhaust_pre_adjust = exhaust_factor \<rparr>)"

text \<open>
  A plant stage of the store's \<^verbatim>\<open>plantStages\<close>; a key that the dictionary lacks is
  \<open>None\<close> and takes the default of \<^verbatim>\<open>stage_data.get(key, default)\<close>.
\<close>

record stage =
  minTemp :: "real option"
  maxTemp :: "real option"
  optimalHumidity :: "real option"

definition normalized :: "string \<Rightarrow> string" where
  "normalized s = filter (\<lambda>c. c \<noteq> CHR '' '' \<and> c \<noteq> CHR ''-'') s"

definition get_plant_stage_data :: "(string \<times> stage) list option \<Rightarrow> string \<Rightarrow> stage option" where
  "get_plant_stage_data plant_stages plant_stage =
     (if plant_stage = [] then None
      else case plant_stages of
             None \<Rightarrow> None
           | Some ps \<Rightarrow>
               (case map_of ps plant_stage of
                  Some st \<Rightarrow> Some st
                | None \<Rightarrow>
                    (case filter (\<lambda>(key, data). normalized key = normalized plant_stage) ps of
                       [] \<Rightarrow> None
                     | (key, data) # _ \<Rightarrow> Some data)))"

definition stage_exhaust :: "(string \<times> real) list" where
  "stage_exhaust =
     [(''Germination'', 15), (''Clones'', 20), (''EarlyVeg'', 30), (''MidVeg'', 45),
      (''LateVeg'', 55), (''EarlyFlower'', 60), (''MidFlower'', 70), (''LateFlower'', 75)]"

text \<open>
  \<^verbatim>\<open>_calculate_base_exhaust_speed\<close>; the comparison of a \<^verbatim>\<open>None\<close> VPD with a number
  raises.
\<close>

definition calculate_base_exhaust_speed ::
    "string \<Rightarrow> sensor_data \<Rightarrow> real option \<Rightarrow> real \<Rightarrow> real \<Rightarrow> exn + real" where
  "calculate_base_exhaust_speed plant_stage sd current_vpd target_vpd max_vpd =
     (case current_vpd of
        None \<Rightarrow> Inl TypeError
      | Some cv \<Rightarrow>
          (let base = (case map_of stage_exhaust plant_stage of Some b \<Rightarrow> b | None \<Rightarrow> 55);
               base = (if cv > max_vpd + 2/10 then base + 15
                       else if cv < target_vpd - 3/10 then base - 10
                       else if cv > target_vpd + 1/10 then base + 5
                       else base);
               base = (case ambient_temp sd of
                         None \<Rightarrow> base
                       | Some a \<Rightarrow> if a > 28 then base + 5 else if a < 15 then base - 5 else base)
           in Inr (max 10 (min 100 base))))"

definition stage_light :: "(string \<times> real) list" where
  "stage_light =
     [(''Germination'', 25), (''Clones'', 35), (''EarlyVeg'', 50), (''MidVeg'', 65),
      (''LateVeg'', 80), (''EarlyFlower'', 85), (''MidFlower'', 95), (''LateFlower'', 95)]"

definition calculate_base_light_intensity :: "string \<Rightarrow> real" where
  "calculate_base_light_intensity plant_stage =
     (case map_of stage_light plant_stage of Some b \<Rightarrow> b | None \<Rightarrow> 80)"

text \<open>
  \<^verbatim>\<open>round(x, n)\<close> for \<open>n\<close> decimals, on reals: the nearest multiple of \<open>10\<^sup>-\<^sup>n\<close>, a tie
  going to the even one.
\<close>

definition round_half_even :: "real \<Rightarrow> int" where
  "round_half_even y =
     (let f = \<lfloor>y\<rfloor>; r = y - of_int f
      in if r < 1/2 then f else if r > 1/2 then f + 1 else if even f then f else f + 1)"

definition py_round :: "real \<Rightarrow> nat \<Rightarrow> real" where
  "py_round x n = of_int (round_half_even (x * 10 ^ n)) / 10 ^ n"

text \<open>
  The dictionary \<^verbatim>\<open>self.targets\<close> (of its ten keys, the five that \<^verbatim>\<open>_calculate_targets\<close>
  writes and the control cycle reads) and the manager's state: the parts of the data store that it reads, its
  parameters, the history, the targets and the stored predictive adjustments.
\<close>

record targets =
  light_intensity :: "real option"
  exhaust_speed :: "real option"
  intake_speed :: "real option"
  temperature_target :: "real option"
  humidity_target :: "real option"

record adjustments =
  adj_temp_predicted_change :: real
  adj_hum_predicted_change :: real
  temp_adjustment :: real
  hum_adjustment :: real
  adj_exhaust_pre_adjust :: real

record manager =
  plantStage :: "string option"
  plantStages :: "(string \<times> stage) list option"
  vpd_perfection :: "real option"
  vpd_perfectMin :: "real option"
  vpd_perfectMax :: "real option"
  prediction_window_minutes :: real
  outside_ambient_inertia :: real
  sensor_history :: "sample list"
  targets :: targets
  predictive_adjustments :: "adjustments option"
  devices :: "(string \<times> device) list"
  control_active :: bool

text \<open>\<^verbatim>\<open>x or default\<close> on an optional number.\<close>

definition or_default :: "real option \<Rightarrow> real \<Rightarrow> real" where
  "or_default v dflt = (if truthy v then the v else dflt)"

text \<open>\<^verbatim>\<open>self.data_store.get("plantStage") or "LateVeg"\<close>.\<close>

definition current_plant_stage :: "manager \<Rightarrow> string" where
  "current_plant_stage m =
     (case plantStage m of None \<Rightarrow> ''LateVeg'' | Some s \<Rightarrow> if s = [] then ''LateVeg'' else s)"

text \<open>
  \<^verbatim>\<open>_calculate_targets\<close>. The result is the manager with the five targets and the
  predictive adjustments written, or the exception of the VPD comparison, raised before
  anything is written.
\<close>

definition calculate_targets :: "manager \<Rightarrow> sensor_data \<Rightarrow> exn + manager" where
  "calculate_targets m sd =
     (let g = calculate_gradients (sensor_history m);
          p = calculate_predictive_factors (prediction_window_minutes m) (outside_ambient_inertia m) sd g;
          plant_stage = current_plant_stage m;
          target_vpd = or_default (vpd_perfection m) 1;
          max_vpd = or_default (vpd_perfectMax m) (12/10);
          current_vpd = vpd sd;
          stage_data = get_plant_stage_data (plantStages m) plant_stage;
          temp_min = (case stage_data of None \<Rightarrow> 20 | Some st \<Rightarrow> (case minTemp st of None \<Rightarrow> 20 | Some v \<Rightarrow> v));
          temp_max = (case stage_data of None \<Rightarrow> 30 | Some st \<Rightarrow> (case maxTemp st of None \<Rightarrow> 30 | Some v \<Rightarrow> v));
          hum_optimal = (case stage_data of None \<Rightarrow> 60 | Some st \<Rightarrow> (case optimalHumidity st of None \<Rightarrow> 60 | Some v \<Rightarrow> v));
          target_temp = (temp_min + temp_max) / 2;
          predicted_temp_change = temp_predicted_change p;
          predicted_hum_change = hum_predicted_change p;
          predictive_temp_adjustment = predicted_temp_change * (7/10);
          predictive_hum_adjustment = predicted_hum_change * (6/10);
          adjusted_target_temp = max temp_min (min temp_max (target_temp - predictive_temp_adjustment));
          adjusted_target_hum = max 40 (min 85 (hum_optimal - predictive_hum_adjustment))
      in case calculate_base_exhaust_speed plant_stage sd current_vpd target_vpd max_vpd of
           Inl e \<Rightarrow> Inl e
         | Inr base_exhaust \<Rightarrow>
             (let predictive_exhaust_adjust = exhaust_pre_adjust p;
                  target_exhaust = max 10 (min 100 (base_exhaust + predictive_exhaust_adjust));
                  target_intake = target_exhaust * (85/100);
                  base_light = calculate_base_light_intensity plant_stage;
                  target_light = (if predicted_temp_change > 1
                                  then base_light - min 20 (predicted_temp_change * 8)
                                  else base_light);
                  target_light = max 0 (min 100 target_light)
              in Inr (m\<lparr> targets :=
                           \<lparr> light_intensity = Some (py_round target_light 1),
                             exhaust_speed = Some (py_round target_exhaust 1),
                             intake_speed = Some (py_round target_intake 1),
                             temperature_target = Some (py_round adjusted_target_temp 1),
                             humidity_target = Some (py_round adjusted_target_hum 1) \<rparr>,
                         predictive_adjustments := Some
                           \<lparr> adj_temp_predicted_change = py_round predicted_temp_change 2,
                             adj_hum_predicted_change = py_round predicted_hum_change 2,
                             temp_adjustment = py_round predictive_temp_adjustment 2,
                             hum_adjustment = py_round predictive_hum_adjustment 2,
                             adj_exhaust_pre_adjust = py_round predictive_exhaust_adjust 1 \<rparr> \<rparr>)))"

subsection \<open>Predictive controller: direct actuation\<close>

text \<open>
  The method calls that \<^verbatim>\<open>_execute_direct_control\<close> makes on the managed devices, by the
  key of the device in \<^verbatim>\<open>self.devices\<close>. What the calls do is \<open>turn_on\<close> and \<open>turn_off\<close>
  above; they raise nothing.
\<close>

datatype command = TurnOn string kwargs | TurnOff string | SetDutyCycle string real

fun command_target :: "command \<Rightarrow> string" where
  "command_target (TurnOn n kw) = n"
| "command_target (TurnOff n) = n"
| "command_target (SetDutyCycle n v) = n"

text \<open>
  The section \<^verbatim>\<open>Control Light\<close>. \<^verbatim>\<open>abs(current_intensity - target_intensity)\<close> is computed
  outside of the \<^verbatim>\<open>try\<close>; with a voltage \<^verbatim>\<open>None\<close> it raises.
\<close>

definition control_light :: "manager \<Rightarrow> exn + command list" where
  "control_light m =
     (case (map_of (devices m) ''light'', light_intensity (targets m)) of
        (Some light, Some target_intensity) \<Rightarrow>
          (case voltage light of
             None \<Rightarrow> Inl TypeError
           | Some current_intensity \<Rightarrow>
               (if \<bar>current_intensity - target_intensity\<bar> > 5
                then Inr [TurnOn ''light'' (no_kwargs\<lparr>brightness_pct := Some target_intensity\<rparr>)]
                else Inr []))
      | _ \<Rightarrow> Inr [])"

text \<open>
  The sections \<^verbatim>\<open>Control Exhaust\<close> and \<^verbatim>\<open>Control Intake\<close>. \<^verbatim>\<open>set_duty_cycle\<close> is a method
  of subclasses that are not part of the sources: \<open>has_set_duty_cycle\<close> says whether the
  device has it.
\<close>

definition control_fan ::
    "(device \<Rightarrow> bool) \<Rightarrow> manager \<Rightarrow> string \<Rightarrow> real option \<Rightarrow> exn + command list" where
  "control_fan has_set_duty_cycle m key target =
     (case (map_of (devices m) key, target) of
        (Some fan, Some target_speed) \<Rightarrow>
          (case dutyCycle fan of
             None \<Rightarrow> Inl TypeError
           | Some current_speed \<Rightarrow>
               (if \<bar>current_speed - target_speed\<bar> > 5 \<and> has_set_duty_cycle fan
                then Inr [SetDutyCycle key target_speed]
                else Inr []))
      | _ \<Rightarrow> Inr [])"

text \<open>The humidity section: \<^verbatim>\<open>hum_diff = current_hum - target_hum\<close> and the hysteresis.\<close>

definition control_humidity :: "manager \<Rightarrow> sensor_data \<Rightarrow> exn + command list" where
  "control_humidity m sd =
     (case (py_or (tent_hum sd) (humidity sd), humidity_target (targets m)) of
        (Some current_hum, Some target_hum) \<Rightarrow>
          (let hum_diff = current_hum - target_hum
           in if hum_diff < - 5 then
                Inr ((if map_of (devices m) ''humidifier'' \<noteq> None
                      then [TurnOn ''humidifier'' no_kwargs] else []) @
                     (if map_of (devices m) ''dehumidifier'' \<noteq> None
                      then [TurnOff ''dehumidifier''] else []))
              else if hum_diff > 5 then
                Inr ((if map_of (devices m) ''dehumidifier'' \<noteq> None
                      then [TurnOn ''dehumidifier'' no_kwargs] else []) @
                     (if map_of (devices m) ''humidifier'' \<noteq> None
                      then [TurnOff ''humidifier''] else []))
              else Inr [])
      | _ \<Rightarrow> Inl TypeError)"

text \<open>The heater section.\<close>

definition control_heater :: "manager \<Rightarrow> sensor_data \<Rightarrow> exn + command list" where
  "control_heater m sd =
     (if map_of (devices m) ''heater'' \<noteq> None then
        (case (temperature_target (targets m), py_or (tent_temp sd) (temperature sd)) of
           (Some target_temp, Some current_temp) \<Rightarrow>
             (let temp_diff = target_temp - current_temp
              in if temp_diff > 3 then Inr [TurnOn ''heater'' no_kwargs]
                 else if temp_diff < - 1 then Inr [TurnOff ''heater'']
                 else Inr [])
         | _ \<Rightarrow> Inl TypeError)
      else Inr [])"

text \<open>
  The sections in order. An exception ends the method; the commands given before it
  stay given.
\<close>

fun in_sequence :: "(exn + command list) list \<Rightarrow> command list \<times> exn option" where
  "in_sequence [] = ([], None)"
| "in_sequence (Inl e # rest) = ([], Some e)"
| "in_sequence (Inr cs # rest) = (case in_sequence rest of (cs', r) \<Rightarrow> (cs @ cs', r))"

definition execute_direct_control ::
    "(device \<Rightarrow> bool) \<Rightarrow> manager \<Rightarrow> sensor_data \<Rightarrow> command list \<times> exn option" where
  "execute_direct_control has_set_duty_cycle m sd =
     in_sequence
       [control_light m,
        control_fan has_set_duty_cycle m ''exhaust'' (exhaust_speed (targets m)),
        control_fan has_set_duty_cycle m ''intake'' (intake_speed (targets m)),
        control_humidity m sd,
        control_heater m sd]"

subsection \<open>Predictive controller: emergency stop\<close>

text \<open>The loop \<^verbatim>\<open>for name, dev in self.devices.items(): await dev.turn_off()\<close>.\<close>

fun stop_devices :: "hass \<Rightarrow> (string \<times> device) list \<Rightarrow> (string \<times> device) list \<times> effect list" where
  "stop_devices h [] = ([], [])"
| "stop_devices h ((name, dev) # rest) =
     (case turn_off h dev of
        (dev', es) \<Rightarrow> (case stop_devices h rest of (rest', es') \<Rightarrow> ((name, dev') # rest', es @ es')))"

text \<open>\<^verbatim>\<open>emergency_stop\<close>: every device is turned off, then \<^verbatim>\<open>stop_control\<close> ends the loop.\<close>

definition emergency_stop :: "hass \<Rightarrow> manager \<Rightarrow> manager \<times> effect list" where
  "emergency_stop h m =
     (case stop_devices h (devices m) of
        (devs, es) \<Rightarrow> (m\<lparr>devices := devs, control_active := False\<rparr>, es))"

section \<open>Properties\<close>


subsection \<open>Helper lemmas\<close>

lemma py_int_of_int: "py_int (of_int n) = n"
  by (simp add: py_int_def)

lemma py_int_lower: "of_int lo \<le> x \<Longrightarrow> lo \<le> py_int x"
  by (simp add: py_int_def le_floor_iff) linarith

lemma py_int_upper: "x \<le> of_int hi \<Longrightarrow> py_int x \<le> hi"
  by (simp add: py_int_def ceiling_le_iff) linarith

subsection \<open>C1: clamping\<close>

text \<open>
  C1, as stated, fails for \<^verbatim>\<open>clamp_duty_cycle\<close>: the result is truncated to an integer, so
  a fractional value inside the bounds is not returned unchanged (50.5 in [0, 100] gives
  50), and a fractional lower bound is undercut (5 with bounds [10.5, 20] gives 10).
\<close>

theorem C1_clamp_duty_cycle_counterexample:
  "(0::real) \<le> 101/2 \<and> (101/2::real) \<le> 100 \<and>
   real_of_int (clamp_duty_cycle ((new_device ''fan'' ''Exhaust'')\<lparr>minDuty := Some 0, maxDuty := Some 100\<rparr>)
      (Some (101/2))) \<noteq> 101/2 \<and>
   real_of_int (clamp_duty_cycle ((new_device ''fan'' ''Exhaust'')\<lparr>minDuty := Some (21/2), maxDuty := Some 20\<rparr>)
      (Some 5)) < 21/2"
  by (simp add: clamp_duty_cycle_def new_device_def py_int_def)

text \<open>
  C1, amended. With both bounds set and \<open>lo \<le> hi\<close>: \<^verbatim>\<open>clamp_voltage\<close> returns a value in
  \<open>[lo, hi]\<close> for every raw value (\<^verbatim>\<open>None\<close> counts as 0), and the value itself when it
  lies in \<open>[lo, hi]\<close>. \<^verbatim>\<open>clamp_duty_cycle\<close> returns 50 for \<^verbatim>\<open>None\<close>, and otherwise the
  clamped value truncated towards zero: with whole-number bounds the result lies in
  \<open>[lo, hi]\<close>, and a whole-number value inside the bounds is returned unchanged.
\<close>

theorem C1_clamp_amended:
  "(minVoltage d = Some lo \<and> maxVoltage d = Some hi \<and> lo \<le> hi \<longrightarrow>
      (\<exists>r. clamp_voltage d v = Some r \<and> lo \<le> r \<and> r \<le> hi) \<and>
      (\<forall>x. v = Some x \<and> lo \<le> x \<and> x \<le> hi \<longrightarrow> clamp_voltage d v = Some x)) \<and>
   clamp_duty_cycle d None = 50 \<and>
   (minDuty d = Some (of_int ilo) \<and> maxDuty d = Some (of_int ihi) \<and> ilo \<le> ihi \<longrightarrow>
      ilo \<le> clamp_duty_cycle d (Some x) \<and> clamp_duty_cycle d (Some x) \<le> ihi \<and>
      (\<forall>n. ilo \<le> n \<and> n \<le> ihi \<longrightarrow> clamp_duty_cycle d (Some (of_int n)) = n))"
proof (intro conjI impI)
  assume b: "minVoltage d = Some lo \<and> maxVoltage d = Some hi \<and> lo \<le> hi"
  then show "\<exists>r. clamp_voltage d v = Some r \<and> lo \<le> r \<and> r \<le> hi"
    by (simp add: clamp_voltage_def)
  from b show "\<forall>x. v = Some x \<and> lo \<le> x \<and> x \<le> hi \<longrightarrow> clamp_voltage d v = Some x"
    by (simp add: clamp_voltage_def)
next
  show "clamp_duty_cycle d None = 50"
    by (simp add: clamp_duty_cycle_def)
next
  assume b: "minDuty d = Some (of_int ilo) \<and> maxDuty d = Some (of_int ihi) \<and> ilo \<le> ihi"
  then have eq: "clamp_duty_cycle d (Some x) = py_int (max (of_int ilo) (min (of_int ihi) x))"
    by (simp add: clamp_duty_cycle_def)
  from b have "real_of_int ilo \<le> max (of_int ilo) (min (of_int ihi) x)" by simp
  then show "ilo \<le> clamp_duty_cycle d (Some x)"
    unfolding eq by (rule py_int_lower)
  from b have "max (of_int ilo) (min (of_int ihi) x) \<le> real_of_int ihi" by simp
  then show "clamp_duty_cycle d (Some x) \<le> ihi"
    unfolding eq by (rule py_int_upper)
  show "\<forall>n. ilo \<le> n \<and> n \<le> ihi \<longrightarrow> clamp_duty_cycle d (Some (of_int n)) = n"
  proof (intro allI impI)
    fix n assume n: "ilo \<le> n \<and> n \<le> ihi"
    then have "max (real_of_int ilo) (min (of_int ihi) (of_int n)) = of_int n"
      by simp
    with b show "clamp_duty_cycle d (Some (of_int n)) = n"
      by (simp add: clamp_duty_cycle_def py_int_of_int)
  qed
qed

theorem C1_clamp_amended_witness:
  "clamp_voltage ((new_device ''lamp'' ''Light'')\<lparr>minVoltage := Some 20, maxVoltage := Some 80\<rparr>) (Some 95) = Some 80 \<and>
   clamp_voltage ((new_device ''lamp'' ''Light'')\<lparr>minVoltage := Some 20, maxVoltage := Some 80\<rparr>) (Some 50) = Some 50 \<and>
   clamp_duty_cycle ((new_device ''fan'' ''Exhaust'')\<lparr>minDuty := Some 10, maxDuty := Some 95\<rparr>) (Some 110) = 95 \<and>
   clamp_duty_cycle ((new_device ''fan'' ''Exhaust'')\<lparr>minDuty := Some 10, maxDuty := Some 95\<rparr>) (Some 50) = 50"
  using C1_clamp_amended
    [of "(new_device ''lamp'' ''Light'')\<lparr>minVoltage := Some 20, maxVoltage := Some 80\<rparr>" 20 80 "Some 95" 10 95 110]
    C1_clamp_amended
    [of "(new_device ''fan'' ''Exhaust'')\<lparr>minDuty := Some 10, maxDuty := Some 95\<rparr>" 0 0 None 10 95 110]
  by (simp add: clamp_voltage_def clamp_duty_cycle_def py_int_def new_device_def)

subsection \<open>What \<^verbatim>\<open>turn_on\<close> leaves untouched\<close>

lemma kept_refl: "kept d d"
  by (simp add: kept_def)

lemma kept_trans: "kept d d' \<Longrightarrow> kept d' d'' \<Longrightarrow> kept d d''"
  by (simp add: kept_def)

lemma run_loop_kept:
  assumes "\<And>i d d' es out. body i d = (d', es, out) \<Longrightarrow> kept d d'"
  shows "run_loop body ids d = (d', es, out) \<Longrightarrow> kept d d'"
proof (induction ids arbitrary: d d' es out)
  case Nil
  then show ?case by (simp add: kept_refl)
next
  case (Cons i ids)
  obtain d1 es1 out1 where step: "body i d = (d1, es1, out1)"
    by (cases "body i d") auto
  then have k1: "kept d d1"
    by (rule assms)
  show ?case
  proof (cases "out1 = Next")
    case True
    obtain d2 es2 out2 where rest: "run_loop body ids d1 = (d2, es2, out2)"
      by (cases "run_loop body ids d1") auto
    with Cons.prems step True have "d' = d2"
      by simp
    with Cons.IH [OF rest] k1 show ?thesis
      by (auto intro: kept_trans)
  next
    case False
    with Cons.prems step have "d' = d1"
      by (cases out1) simp_all
    with k1 show ?thesis by simp
  qed
qed

lemma call_then_kept: "call_then h c r out d = (d', es, out') \<Longrightarrow> kept d d'"
  by (auto simp: call_then_def kept_def split: if_splits)

lemma ac_on_step_kept: "ac_on_step h b p i d = (d', es, out) \<Longrightarrow> kept d d'"
  by (auto simp: ac_on_step_def Let_def kept_def split: if_splits)

lemma on_step_kept: "on_step h kw b p i d = (d', es, out) \<Longrightarrow> kept d d'"
  unfolding on_step_def Let_def
  by (auto split: if_splits dest: call_then_kept simp: kept_def)

lemma turn_on_body_kept:
  assumes "turn_on_body h kw d = (d', es, out)"
  shows "kept d d'"
proof -
  define b where "b = effective_brightness kw d"
  define p where "p = effective_percentage kw d"
  from assms have body: "(case (if isAcInfinDev d then run_loop (ac_on_step h b p) (select_entity_ids d) d
               else (d, [], Next)) of
           (d', es, Next) \<Rightarrow>
             (case run_loop (on_step h kw b p) (map entity_id (switches d')) d' of
                (d'', es', out) \<Rightarrow> (d'', es @ es', out))
         | (d', es, out) \<Rightarrow> (d', es, out)) = (d', es, out)"
    unfolding turn_on_body_def Let_def b_def p_def .
  obtain d1 es1 out1 where ac: "(if isAcInfinDev d then run_loop (ac_on_step h b p) (select_entity_ids d) d
               else (d, [], Next)) = (d1, es1, out1)"
    by (metis prod_cases3)
  have k1: "kept d d1"
  proof (cases "isAcInfinDev d")
    case True
    with ac show ?thesis
      by (auto intro: run_loop_kept ac_on_step_kept)
  next
    case False
    with ac show ?thesis by (simp add: kept_refl)
  qed
  show ?thesis
  proof (cases "out1 = Next")
    case True
    obtain d2 es2 out2 where st: "run_loop (on_step h kw b p) (map entity_id (switches d1)) d1 = (d2, es2, out2)"
      by (metis prod_cases3)
    then have "kept d1 d2"
      by (auto intro: run_loop_kept on_step_kept)
    moreover from body ac True st have "d' = d2"
      by simp
    ultimately show ?thesis
      using k1 by (auto intro: kept_trans)
  next
    case False
    with body ac have "d' = d1"
      by (cases out1) simp_all
    with k1 show ?thesis by simp
  qed
qed


lemma turn_on_rejected:
  "\<not> accepted h now d \<Longrightarrow> turn_on h now kw d = (d\<lparr>in_active_control := False\<rparr>, [])"
  by (auto simp: turn_on_def accepted_def)

lemma turn_on_accepted:
  assumes "accepted h now d" and "turn_on h now kw d = (d', es)"
  shows "last_turn_on_time d' = Some now \<and> in_active_control d' = False"
proof -
  obtain d1 es1 out1 where b: "turn_on_body h kw (d\<lparr>in_active_control := True, last_turn_on_time := Some now\<rparr>)
      = (d1, es1, out1)"
    by (metis prod_cases3)
  then have "last_turn_on_time d1 = Some now"
    by (auto dest!: turn_on_body_kept simp: kept_def)
  with assms b show ?thesis
    by (auto simp: turn_on_def accepted_def)
qed

lemma turn_on_too_soon:
  assumes "last_turn_on_time d = Some t1" and "t2 - t1 < 3" and "in_active_control d = False"
  shows "turn_on h t2 kw d = (d, [])"
proof -
  from assms(1,2) have "\<not> accepted h t2 d"
    by (simp add: accepted_def)
  then have "turn_on h t2 kw d = (d\<lparr>in_active_control := False\<rparr>, [])"
    by (rule turn_on_rejected)
  moreover from assms(3) have "d\<lparr>in_active_control := False\<rparr> = d"
    by simp
  ultimately show ?thesis by simp
qed

subsection \<open>C2: gradients\<close>

text \<open>
  C2, as stated, fails: a gradient is not the change of a quantity between the oldest and
  the newest entry. In a history of two entries, one hour apart, that hold the same
  readings (outside 20, ambient 15), nothing changes between the oldest and the newest
  entry, whichever quantity is meant (the outside reading, the ambient reading, or their
  difference), and yet the outside-to-ambient temperature gradient is 5 per hour.
\<close>

theorem C2_gradient_counterexample:
  "outside_to_ambient_temp (calculate_gradients
     [\<lparr> temperature = None, humidity = None, vpd = Some 1, co2 = None, tent_light_intensity = None,
        tent_temp = Some 14, tent_hum = Some 50, ambient_temp = Some 15, ambient_hum = Some 45,
        outside_temp = Some 20, outside_hum = Some 40, timestamp = 0 \<rparr>,
      \<lparr> temperature = None, humidity = None, vpd = Some 1, co2 = None, tent_light_intensity = None,
        tent_temp = Some 14, tent_hum = Some 50, ambient_temp = Some 15, ambient_hum = Some 45,
        outside_temp = Some 20, outside_hum = Some 40, timestamp = 3600 \<rparr>]) = 5 \<and>
   claimed_gradient outside_temp
     [\<lparr> temperature = None, humidity = None, vpd = Some 1, co2 = None, tent_light_intensity = None,
        tent_temp = Some 14, tent_hum = Some 50, ambient_temp = Some 15, ambient_hum = Some 45,
        outside_temp = Some 20, outside_hum = Some 40, timestamp = 0 \<rparr>,
      \<lparr> temperature = None, humidity = None, vpd = Some 1, co2 = None, tent_light_intensity = None,
        tent_temp = Some 14, tent_hum = Some 50, ambient_temp = Some 15, ambient_hum = Some 45,
        outside_temp = Some 20, outside_hum = Some 40, timestamp = 3600 \<rparr>] = 0 \<and>
   claimed_gradient ambient_temp
     [\<lparr> temperature = None, humidity = None, vpd = Some 1, co2 = None, tent_light_intensity = None,
        tent_temp = Some 14, tent_hum = Some 50, ambient_temp = Some 15, ambient_hum = Some 45,
        outside_temp = Some 20, outside_hum = Some 40, timestamp = 0 \<rparr>,
      \<lparr> temperature = None, humidity = None, vpd = Some 1, co2 = None, tent_light_intensity = None,
        tent_temp = Some 14, tent_hum = Some 50, ambient_temp = Some 15, ambient_hum = Some 45,
        outside_temp = Some 20, outside_hum = Some 40, timestamp = 3600 \<rparr>] = 0"
  by (simp add: calculate_gradients_def claimed_gradient_def time_delta_hours_def layer_gradient_def)

text \<open>
  C2, amended. With fewer than two entries all six gradients are zero. With two or more,
  let \<open>e\<close> be the hours elapsed between the oldest and the newest entry, 0.5 when none
  elapsed. Each inter-layer gradient is the difference between the two layers' readings
  in the newest entry (outside minus ambient, ambient minus enclosure) divided by \<open>e\<close>;
  it is 0 when one of the two readings is missing, or when the newest timestamp is the
  earlier one.
\<close>

theorem C2_gradient_amended:
  "(length h < 2 \<longrightarrow> calculate_gradients h = zero_gradients) \<and>
   (2 \<le> length h \<and> e = (if timestamp (last h) = timestamp (hd h) then 1/2
                          else (timestamp (last h) - timestamp (hd h)) / 3600) \<longrightarrow>
      (0 < e \<and> outside_temp (last h) = Some t_out \<and> ambient_temp (last h) = Some t_amb \<longrightarrow>
         outside_to_ambient_temp (calculate_gradients h) = (t_out - t_amb) / e) \<and>
      (0 < e \<and> outside_hum (last h) = Some h_out \<and> ambient_hum (last h) = Some h_amb \<longrightarrow>
         outside_to_ambient_hum (calculate_gradients h) = (h_out - h_amb) / e) \<and>
      (0 < e \<and> ambient_temp (last h) = Some t_amb \<and> tent_temp (last h) = Some t_tent \<longrightarrow>
         ambient_to_tent_temp (calculate_gradients h) = (t_amb - t_tent) / e) \<and>
      (0 < e \<and> ambient_hum (last h) = Some h_amb \<and> tent_hum (last h) = Some h_tent \<longrightarrow>
         ambient_to_tent_hum (calculate_gradients h) = (h_amb - h_tent) / e) \<and>
      (e < 0 \<or> outside_temp (last h) = None \<or> ambient_temp (last h) = None \<longrightarrow>
         outside_to_ambient_temp (calculate_gradients h) = 0) \<and>
      (e < 0 \<or> outside_hum (last h) = None \<or> ambient_hum (last h) = None \<longrightarrow>
         outside_to_ambient_hum (calculate_gradients h) = 0) \<and>
      (e < 0 \<or> ambient_temp (last h) = None \<or> tent_temp (last h) = None \<longrightarrow>
         ambient_to_tent_temp (calculate_gradients h) = 0) \<and>
      (e < 0 \<or> ambient_hum (last h) = None \<or> tent_hum (last h) = None \<longrightarrow>
         ambient_to_tent_hum (calculate_gradients h) = 0))"
proof (rule conjI)
  show "length h < 2 \<longrightarrow> calculate_gradients h = zero_gradients"
    by (simp add: calculate_gradients_def)
next
  have "time_delta_hours h = e" "\<not> length h < 2"
    if "2 \<le> length h \<and> e = (if timestamp (last h) = timestamp (hd h) then 1/2
                          else (timestamp (last h) - timestamp (hd h)) / 3600)"
    using that by (simp_all add: time_delta_hours_def)
  then show "2 \<le> length h \<and> e = (if timestamp (last h) = timestamp (hd h) then 1/2
                          else (timestamp (last h) - timestamp (hd h)) / 3600) \<longrightarrow>
      (0 < e \<and> outside_temp (last h) = Some t_out \<and> ambient_temp (last h) = Some t_amb \<longrightarrow>
         outside_to_ambient_temp (calculate_gradients h) = (t_out - t_amb) / e) \<and>
      (0 < e \<and> outside_hum (last h) = Some h_out \<and> ambient_hum (last h) = Some h_amb \<longrightarrow>
         outside_to_ambient_hum (calculate_gradients h) = (h_out - h_amb) / e) \<and>
      (0 < e \<and> ambient_temp (last h) = Some t_amb \<and> tent_temp (last h) = Some t_tent \<longrightarrow>
         ambient_to_tent_temp (calculate_gradients h) = (t_amb - t_tent) / e) \<and>
      (0 < e \<and> ambient_hum (last h) = Some h_amb \<and> tent_hum (last h) = Some h_tent \<longrightarrow>
         ambient_to_tent_hum (calculate_gradients h) = (h_amb - h_tent) / e) \<and>
      (e < 0 \<or> outside_temp (last h) = None \<or> ambient_temp (last h) = None \<longrightarrow>
         outside_to_ambient_temp (calculate_gradients h) = 0) \<and>
      (e < 0 \<or> outside_hum (last h) = None \<or> ambient_hum (last h) = None \<longrightarrow>
         outside_to_ambient_hum (calculate_gradients h) = 0) \<and>
      (e < 0 \<or> ambient_temp (last h) = None \<or> tent_temp (last h) = None \<longrightarrow>
         ambient_to_tent_temp (calculate_gradients h) = 0) \<and>
      (e < 0 \<or> ambient_hum (last h) = None \<or> tent_hum (last h) = None \<longrightarrow>
         ambient_to_tent_hum (calculate_gradients h) = 0)"
    by (auto simp: calculate_gradients_def layer_gradient_def Let_def split: option.splits)
qed

text \<open>
  Two entries half an hour apart and two entries with the same timestamp: both divide by
  0.5; one entry gives the zero gradients.
\<close>

theorem C2_gradient_amended_witness:
  "outside_to_ambient_temp (calculate_gradients
     [\<lparr> temperature = None, humidity = None, vpd = Some 1, co2 = None, tent_light_intensity = None,
        tent_temp = Some 24, tent_hum = Some 50, ambient_temp = Some 22, ambient_hum = Some 45,
        outside_temp = Some 18, outside_hum = Some 40, timestamp = 100 \<rparr>,
      \<lparr> temperature = None, humidity = None, vpd = Some 1, co2 = None, tent_light_intensity = None,
        tent_temp = Some 25, tent_hum = Some 50, ambient_temp = Some 23, ambient_hum = Some 45,
        outside_temp = Some 20, outside_hum = Some 40, timestamp = 100 \<rparr>]) = - 6 \<and>
   ambient_to_tent_hum (calculate_gradients
     [\<lparr> temperature = None, humidity = None, vpd = Some 1, co2 = None, tent_light_intensity = None,
        tent_temp = Some 24, tent_hum = Some 50, ambient_temp = Some 22, ambient_hum = Some 45,
        outside_temp = Some 18, outside_hum = Some 40, timestamp = 100 \<rparr>,
      \<lparr> temperature = None, humidity = None, vpd = Some 1, co2 = None, tent_light_intensity = None,
        tent_temp = Some 25, tent_hum = Some 50, ambient_temp = Some 23, ambient_hum = Some 45,
        outside_temp = Some 20, outside_hum = Some 40, timestamp = 100 \<rparr>]) = - 10 \<and>
   calculate_gradients
     [\<lparr> temperature = None, humidity = None, vpd = Some 1, co2 = None, tent_light_intensity = None,
        tent_temp = Some 24, tent_hum = Some 50, ambient_temp = Some 22, ambient_hum = Some 45,
        outside_temp = Some 18, outside_hum = Some 40, timestamp = 100 \<rparr>] = zero_gradients"
  using C2_gradient_amended
    [of "[\<lparr> temperature = None, humidity = None, vpd = Some 1, co2 = None, tent_light_intensity = None,
        tent_temp = Some 24, tent_hum = Some 50, ambient_temp = Some 22, ambient_hum = Some 45,
        outside_temp = Some 18, outside_hum = Some 40, timestamp = 100 \<rparr>,
      \<lparr> temperature = None, humidity = None, vpd = Some 1, co2 = None, tent_light_intensity = None,
        tent_temp = Some 25, tent_hum = Some 50, ambient_temp = Some 23, ambient_hum = Some 45,
        outside_temp = Some 20, outside_hum = Some 40, timestamp = 100 \<rparr>]" "1/2" 20 23 40 45 25 50]
    C2_gradient_amended
    [of "[\<lparr> temperature = None, humidity = None, vpd = Some 1, co2 = None, tent_light_intensity = None,
        tent_temp = Some 24, tent_hum = Some 50, ambient_temp = Some 22, ambient_hum = Some 45,
        outside_temp = Some 18, outside_hum = Some 40, timestamp = 100 \<rparr>]" 0 0 0 0 0 0 0]
  by simp

subsection \<open>C3: leaving the work mode\<close>











lemma accepted_cong:
  "switches d' = switches d \<Longrightarrow> last_turn_on_time d' = last_turn_on_time d \<Longrightarrow>
   accepted h t d' = accepted h t d"
  by (simp add: accepted_def is_device_online_def)



lemma accepted_exit [simp]:
  "accepted h t (d\<lparr>inWorkMode := w\<rparr>) = accepted h t d"
  "accepted h t (d\<lparr>inWorkMode := w, voltage := v\<rparr>) = accepted h t d"
  "accepted h t (d\<lparr>inWorkMode := w, dutyCycle := v\<rparr>) = accepted h t d"
  by (simp_all add: accepted_def is_device_online_def)





text \<open>
  The running mark that counts is the one at the time of the transition. Entering the
  work mode calls \<^verbatim>\<open>turn_on\<close> on a dimmable device whether it is marked running or not, and
  an accepted \<^verbatim>\<open>turn_on\<close> marks it running: an exhaust fan that was off before it entered
  the work mode runs at 20 in the work mode, and is set to 80 when it leaves it.
\<close>

lemma WorkMode_enter_marks_running:
  "WorkMode quiet_hass 1000 1000 True
     ((new_device ''fan1'' ''Exhaust'')\<lparr> isDimmable := True, isRunning := Some False,
        minDuty := Some 20, maxDuty := Some 80, dutyCycle := Some 50,
        switches := [\<lparr> entity_id = ''fan.fan1'', value = PStr ''off'', platform = ''esphome'' \<rparr>] \<rparr>) =
     ((new_device ''fan1'' ''Exhaust'')\<lparr> isDimmable := True, isRunning := Some True, inWorkMode := True,
        minDuty := Some 20, maxDuty := Some 80, dutyCycle := Some 20, last_turn_on_time := Some 1000,
        switches := [\<lparr> entity_id = ''fan.fan1'', value = PStr ''off'', platform = ''esphome'' \<rparr>] \<rparr>,
      [Call (Service ''fan'' ''set_percentage'' ''fan.fan1'' (DataPercentage 20))], None) \<and>
   WorkMode quiet_hass 1010 1010 False
     ((new_device ''fan1'' ''Exhaust'')\<lparr> isDimmable := True, isRunning := Some True, inWorkMode := True,
        minDuty := Some 20, maxDuty := Some 80, dutyCycle := Some 20, last_turn_on_time := Some 1000,
        switches := [\<lparr> entity_id = ''fan.fan1'', value = PStr ''off'', platform = ''esphome'' \<rparr>] \<rparr>) =
     ((new_device ''fan1'' ''Exhaust'')\<lparr> isDimmable := True, isRunning := Some True, inWorkMode := False,
        minDuty := Some 20, maxDuty := Some 80, dutyCycle := Some 80, last_turn_on_time := Some 1010,
        switches := [\<lparr> entity_id = ''fan.fan1'', value = PStr ''off'', platform = ''esphome'' \<rparr>] \<rparr>,
      [Call (Service ''fan'' ''set_percentage'' ''fan.fan1'' (DataPercentage 80))], None)"
  by code_simp

subsection \<open>C4: predictive targets\<close>

lemma round_half_even_cases:
  "round_half_even y = \<lfloor>y\<rfloor> \<or> (round_half_even y = \<lfloor>y\<rfloor> + 1 \<and> of_int \<lfloor>y\<rfloor> + 1/2 \<le> y)"
  by (simp add: round_half_even_def Let_def)

lemma round_half_even_lower:
  assumes "of_int a \<le> y"
  shows "a \<le> round_half_even y"
proof -
  from assms have "a \<le> \<lfloor>y\<rfloor>"
    by (simp add: le_floor_iff)
  with round_half_even_cases [of y] show ?thesis
    by auto
qed

lemma round_half_even_upper:
  assumes "y \<le> of_int b"
  shows "round_half_even y \<le> b"
proof -
  from assms have le: "\<lfloor>y\<rfloor> \<le> b"
    by (simp add: floor_le_iff)
  have "\<lfloor>y\<rfloor> \<noteq> b" if "of_int \<lfloor>y\<rfloor> + 1/2 \<le> y"
  proof
    assume "\<lfloor>y\<rfloor> = b"
    with that have "of_int b + 1/2 \<le> y" by simp
    with assms show False by simp
  qed
  with le round_half_even_cases [of y] show ?thesis
    by auto
qed

lemma round_half_even_close: "\<bar>of_int (round_half_even y) - y\<bar> \<le> 1/2"
proof -
  define f where "f = \<lfloor>y\<rfloor>"
  define r where "r = y - of_int f"
  have r: "0 \<le> r" "r < 1"
    unfolding r_def f_def by (simp_all add: floor_less_cancel)
  have y: "y = of_int f + r"
    by (simp add: r_def)
  have "round_half_even y =
      (if r < 1/2 then f else if r > 1/2 then f + 1 else if even f then f else f + 1)"
    by (simp add: round_half_even_def Let_def f_def r_def)
  with r show ?thesis
    unfolding y by (auto simp: abs_le_iff)
qed

lemma py_round1_lower:
  assumes "of_int a / 10 \<le> x"
  shows "of_int a / 10 \<le> py_round x 1"
proof -
  from assms have "of_int a \<le> x * 10" by simp
  then have "a \<le> round_half_even (x * 10)" by (rule round_half_even_lower)
  then have "real_of_int a \<le> of_int (round_half_even (x * 10))" by simp
  then show ?thesis by (simp add: py_round_def divide_right_mono)
qed

lemma py_round1_upper:
  assumes "x \<le> of_int b / 10"
  shows "py_round x 1 \<le> of_int b / 10"
proof -
  from assms have "x * 10 \<le> of_int b" by simp
  then have "round_half_even (x * 10) \<le> b" by (rule round_half_even_upper)
  then have "real_of_int (round_half_even (x * 10)) \<le> of_int b" by simp
  then show ?thesis by (simp add: py_round_def divide_right_mono)
qed

lemma py_round1_close: "\<bar>py_round x 1 - x\<bar> \<le> 1/20"
proof -
  have "\<bar>of_int (round_half_even (x * 10)) - x * 10\<bar> \<le> 1/2"
    by (rule round_half_even_close)
  then show ?thesis
    by (simp add: py_round_def abs_le_iff field_simps)
qed

text \<open>
  C4, as stated, fails for the temperature: the target that is stored is the re-clamped
  value rounded to one decimal. For a stage with the range [20.01, 20.03], an empty
  history and a VPD of 1, the re-clamped value is 20.02 and the target is 20.0, below
  \<^verbatim>\<open>minTemp\<close>.
\<close>

theorem C4_temperature_target_counterexample:
  "(2001/100 :: real) \<le> 2003/100 \<and>
   \<not> isl (calculate_targets
      \<lparr> plantStage = Some ''LateVeg'',
        plantStages = Some [(''LateVeg'', \<lparr> minTemp = Some (2001/100), maxTemp = Some (2003/100),
                                           optimalHumidity = None \<rparr>)],
        vpd_perfection = None, vpd_perfectMin = None, vpd_perfectMax = None,
        prediction_window_minutes = 5, outside_ambient_inertia = 7/10, sensor_history = [],
        targets = \<lparr> light_intensity = None, exhaust_speed = None, intake_speed = None,
                    temperature_target = None, humidity_target = None \<rparr>,
        predictive_adjustments = None, devices = [], control_active = True \<rparr>
      \<lparr> temperature = Some 20, humidity = Some 60, vpd = Some 1, co2 = None,
        tent_light_intensity = None, tent_temp = None, tent_hum = None, ambient_temp = None,
        ambient_hum = None, outside_temp = None, outside_hum = None \<rparr>) \<and>
   temperature_target (targets (projr (calculate_targets
      \<lparr> plantStage = Some ''LateVeg'',
        plantStages = Some [(''LateVeg'', \<lparr> minTemp = Some (2001/100), maxTemp = Some (2003/100),
                                           optimalHumidity = None \<rparr>)],
        vpd_perfection = None, vpd_perfectMin = None, vpd_perfectMax = None,
        prediction_window_minutes = 5, outside_ambient_inertia = 7/10, sensor_history = [],
        targets = \<lparr> light_intensity = None, exhaust_speed = None, intake_speed = None,
                    temperature_target = None, humidity_target = None \<rparr>,
        predictive_adjustments = None, devices = [], control_active = True \<rparr>
      \<lparr> temperature = Some 20, humidity = Some 60, vpd = Some 1, co2 = None,
        tent_light_intensity = None, tent_temp = None, tent_hum = None, ambient_temp = None,
        ambient_hum = None, outside_temp = None, outside_hum = None \<rparr>))) = Some 20 \<and>
   (20 :: real) < 2001/100"
  by code_simp

text \<open>
  C4, amended. For the plant stage in force, with range \<open>[lo, hi]\<close>, \<open>lo \<le> hi\<close>, and a
  VPD reading present, the target calculation succeeds for every history, that is for
  every predicted delta. The temperature target is a value \<open>t\<close> of \<open>[lo, hi]\<close> (the
  re-clamped one) rounded to one decimal: it is within 0.05 of \<open>t\<close>, and within
  \<open>[lo, hi]\<close> when both bounds are multiples of 0.1. The humidity target lies in [40, 85].
\<close>

theorem C4_targets_amended:
  "get_plant_stage_data (plantStages m) (current_plant_stage m) = Some st \<and>
   minTemp st = Some lo \<and> maxTemp st = Some hi \<and> lo \<le> hi \<and> vpd sd = Some v \<longrightarrow>
   (\<exists>m' t tt ht.
      calculate_targets m sd = Inr m' \<and>
      temperature_target (targets m') = Some tt \<and> tt = py_round t 1 \<and>
      lo \<le> t \<and> t \<le> hi \<and> \<bar>tt - t\<bar> \<le> 1/20 \<and>
      (lo = of_int a / 10 \<and> hi = of_int b / 10 \<longrightarrow> lo \<le> tt \<and> tt \<le> hi) \<and>
      humidity_target (targets m') = Some ht \<and> 40 \<le> ht \<and> ht \<le> 85)"
proof
  assume a: "get_plant_stage_data (plantStages m) (current_plant_stage m) = Some st \<and>
   minTemp st = Some lo \<and> maxTemp st = Some hi \<and> lo \<le> hi \<and> vpd sd = Some v"
  define p where "p = calculate_predictive_factors (prediction_window_minutes m)
     (outside_ambient_inertia m) sd (calculate_gradients (sensor_history m))"
  define t where "t = max lo (min hi ((lo + hi) / 2 - temp_predicted_change p * (7/10)))"
  define hopt where "hopt = (case optimalHumidity st of None \<Rightarrow> 60 | Some h \<Rightarrow> h)"
  define hu where "hu = max 40 (min 85 (hopt - hum_predicted_change p * (6/10)))"
  from a obtain be where be: "calculate_base_exhaust_speed (current_plant_stage m) sd (vpd sd)
      (or_default (vpd_perfection m) 1) (or_default (vpd_perfectMax m) (12/10)) = Inr be"
    by (auto simp: calculate_base_exhaust_speed_def Let_def)
  from a be obtain m' where m': "calculate_targets m sd = Inr m'"
    and tt: "temperature_target (targets m') = Some (py_round t 1)"
    and ht: "humidity_target (targets m') = Some (py_round hu 1)"
    by (simp add: calculate_targets_def Let_def p_def t_def hu_def hopt_def)
  from a have t: "lo \<le> t" "t \<le> hi"
    by (simp_all add: t_def)
  have "(400::int) / 10 \<le> hu" "hu \<le> (850::int) / 10"
    by (simp_all add: hu_def)
  then have "(400::int) / 10 \<le> py_round hu 1" "py_round hu 1 \<le> (850::int) / 10"
    by (simp_all only: py_round1_lower py_round1_upper)
  then have h: "40 \<le> py_round hu 1" "py_round hu 1 \<le> 85"
    by simp_all
  have r: "lo \<le> py_round t 1 \<and> py_round t 1 \<le> hi" if "lo = of_int a / 10 \<and> hi = of_int b / 10"
    using t that py_round1_lower [of a t] py_round1_upper [of t b] by simp
  show "\<exists>m' t tt ht.
      calculate_targets m sd = Inr m' \<and>
      temperature_target (targets m') = Some tt \<and> tt = py_round t 1 \<and>
      lo \<le> t \<and> t \<le> hi \<and> \<bar>tt - t\<bar> \<le> 1/20 \<and>
      (lo = of_int a / 10 \<and> hi = of_int b / 10 \<longrightarrow> lo \<le> tt \<and> tt \<le> hi) \<and>
      humidity_target (targets m') = Some ht \<and> 40 \<le> ht \<and> ht \<le> 85"
    using m' tt ht t h r py_round1_close [of t] by blast
qed

text \<open>
  The stage \<^verbatim>\<open>LateVeg\<close> of the default store (24 to 27), the outside 18 degrees above
  the ambient layer after one minute of history: the predicted rise of 18.9 would put the
  target at 12.27, and it is held at 24.
\<close>

theorem C4_targets_amended_witness:
  "(case calculate_targets
      \<lparr> plantStage = None,
        plantStages = Some [(''LateVeg'', \<lparr> minTemp = Some 24, maxTemp = Some 27,
                                           optimalHumidity = None \<rparr>)],
        vpd_perfection = None, vpd_perfectMin = None, vpd_perfectMax = None,
        prediction_window_minutes = 5, outside_ambient_inertia = 7/10,
        sensor_history =
          [\<lparr> temperature = None, humidity = None, vpd = Some 1, co2 = None, tent_light_intensity = None,
             tent_temp = Some 22, tent_hum = Some 50, ambient_temp = Some 22, ambient_hum = Some 45,
             outside_temp = Some 30, outside_hum = Some 45, timestamp = 0 \<rparr>,
           \<lparr> temperature = None, humidity = None, vpd = Some 1, co2 = None, tent_light_intensity = None,
             tent_temp = Some 22, tent_hum = Some 50, ambient_temp = Some 22, ambient_hum = Some 45,
             outside_temp = Some 40, outside_hum = Some 45, timestamp = 60 \<rparr>],
        targets = \<lparr> light_intensity = None, exhaust_speed = None, intake_speed = None,
                    temperature_target = None, humidity_target = None \<rparr>,
        predictive_adjustments = None, devices = [], control_active = True \<rparr>
      \<lparr> temperature = None, humidity = None, vpd = Some 1, co2 = None,
        tent_light_intensity = None, tent_temp = Some 22, tent_hum = Some 50, ambient_temp = Some 22,
        ambient_hum = Some 45, outside_temp = Some 40, outside_hum = Some 45 \<rparr>
    of Inl e \<Rightarrow> False
     | Inr m' \<Rightarrow> temperature_target (targets m') = Some 24 \<and> humidity_target (targets m') = Some 60) \<and>
   (\<exists>m' t tt ht.
      calculate_targets
        \<lparr> plantStage = None,
        plantStages = Some [(''LateVeg'', \<lparr> minTemp = Some 24, maxTemp = Some 27,
                                           optimalHumidity = None \<rparr>)],
        vpd_perfection = None, vpd_perfectMin = None, vpd_perfectMax = None,
        prediction_window_minutes = 5, outside_ambient_inertia = 7/10,
        sensor_history =
          [\<lparr> temperature = None, humidity = None, vpd = Some 1, co2 = None, tent_light_intensity = None,
             tent_temp = Some 22, tent_hum = Some 50, ambient_temp = Some 22, ambient_hum = Some 45,
             outside_temp = Some 30, outside_hum = Some 45, timestamp = 0 \<rparr>,
           \<lparr> temperature = None, humidity = None, vpd = Some 1, co2 = None, tent_light_intensity = None,
             tent_temp = Some 22, tent_hum = Some 50, ambient_temp = Some 22, ambient_hum = Some 45,
             outside_temp = Some 40, outside_hum = Some 45, timestamp = 60 \<rparr>],
        targets = \<lparr> light_intensity = None, exhaust_speed = None, intake_speed = None,
                    temperature_target = None, humidity_target = None \<rparr>,
        predictive_adjustments = None, devices = [], control_active = True \<rparr>
        \<lparr> temperature = None, humidity = None, vpd = Some 1, co2 = None,
        tent_light_intensity = None, tent_temp = Some 22, tent_hum = Some 50, ambient_temp = Some 22,
        ambient_hum = Some 45, outside_temp = Some 40, outside_hum = Some 45 \<rparr> = Inr m' \<and>
      temperature_target (targets m') = Some tt \<and> tt = py_round t 1 \<and>
      24 \<le> t \<and> t \<le> 27 \<and> \<bar>tt - t\<bar> \<le> 1/20 \<and>
      ((24::real) = of_int 240 / 10 \<and> (27::real) = of_int 270 / 10 \<longrightarrow> 24 \<le> tt \<and> tt \<le> 27) \<and>
      humidity_target (targets m') = Some ht \<and> 40 \<le> ht \<and> ht \<le> 85)"
proof (rule conjI)
  show "case calculate_targets
      \<lparr> plantStage = None,
        plantStages = Some [(''LateVeg'', \<lparr> minTemp = Some 24, maxTemp = Some 27,
                                           optimalHumidity = None \<rparr>)],
        vpd_perfection = None, vpd_perfectMin = None, vpd_perfectMax = None,
        prediction_window_minutes = 5, outside_ambient_inertia = 7/10,
        sensor_history =
          [\<lparr> temperature = None, humidity = None, vpd = Some 1, co2 = None, tent_light_intensity = None,
             tent_temp = Some 22, tent_hum = Some 50, ambient_temp = Some 22, ambient_hum = Some 45,
             outside_temp = Some 30, outside_hum = Some 45, timestamp = 0 \<rparr>,
           \<lparr> temperature = None, humidity = None, vpd = Some 1, co2 = None, tent_light_intensity = None,
             tent_temp = Some 22, tent_hum = Some 50, ambient_temp = Some 22, ambient_hum = Some 45,
             outside_temp = Some 40, outside_hum = Some 45, timestamp = 60 \<rparr>],
        targets = \<lparr> light_intensity = None, exhaust_speed = None, intake_speed = None,
                    temperature_target = None, humidity_target = None \<rparr>,
        predictive_adjustments = None, devices = [], control_active = True \<rparr>
      \<lparr> temperature = None, humidity = None, vpd = Some 1, co2 = None,
        tent_light_intensity = None, tent_temp = Some 22, tent_hum = Some 50, ambient_temp = Some 22,
        ambient_hum = Some 45, outside_temp = Some 40, outside_hum = Some 45 \<rparr>
    of Inl e \<Rightarrow> False
     | Inr m' \<Rightarrow> temperature_target (targets m') = Some 24 \<and> humidity_target (targets m') = Some 60"
    by code_simp
next
  have hyp: "get_plant_stage_data (plantStages
      \<lparr> plantStage = None,
        plantStages = Some [(''LateVeg'', \<lparr> minTemp = Some 24, maxTemp = Some 27,
                                           optimalHumidity = None \<rparr>)],
        vpd_perfection = None, vpd_perfectMin = None, vpd_perfectMax = None,
        prediction_window_minutes = 5, outside_ambient_inertia = 7/10,
        sensor_history =
          [\<lparr> temperature = None, humidity = None, vpd = Some 1, co2 = None, tent_light_intensity = None,
             tent_temp = Some 22, tent_hum = Some 50, ambient_temp = Some 22, ambient_hum = Some 45,
             outside_temp = Some 30, outside_hum = Some 45, timestamp = 0 \<rparr>,
           \<lparr> temperature = None, humidity = None, vpd = Some 1, co2 = None, tent_light_intensity = None,
             tent_temp = Some 22, tent_hum = Some 50, ambient_temp = Some 22, ambient_hum = Some 45,
             outside_temp = Some 40, outside_hum = Some 45, timestamp = 60 \<rparr>],
        targets = \<lparr> light_intensity = None, exhaust_speed = None, intake_speed = None,
                    temperature_target = None, humidity_target = None \<rparr>,
        predictive_adjustments = None, devices = [], control_active = True \<rparr>)
    (current_plant_stage
      \<lparr> plantStage = None,
        plantStages = Some [(''LateVeg'', \<lparr> minTemp = Some 24, maxTemp = Some 27,
                                           optimalHumidity = None \<rparr>)],
        vpd_perfection = None, vpd_perfectMin = None, vpd_perfectMax = None,
        prediction_window_minutes = 5, outside_ambient_inertia = 7/10,
        sensor_history =
          [\<lparr> temperature = None, humidity = None, vpd = Some 1, co2 = None, tent_light_intensity = None,
             tent_temp = Some 22, tent_hum = Some 50, ambient_temp = Some 22, ambient_hum = Some 45,
             outside_temp = Some 30, outside_hum = Some 45, timestamp = 0 \<rparr>,
           \<lparr> temperature = None, humidity = None, vpd = Some 1, co2 = None, tent_light_intensity = None,
             tent_temp = Some 22, tent_hum = Some 50, ambient_temp = Some 22, ambient_hum = Some 45,
             outside_temp = Some 40, outside_hum = Some 45, timestamp = 60 \<rparr>],
        targets = \<lparr> light_intensity = None, exhaust_speed = None, intake_speed = None,
                    temperature_target = None, humidity_target = None \<rparr>,
        predictive_adjustments = None, devices = [], control_active = True \<rparr>) =
      Some \<lparr> minTemp = Some 24, maxTemp = Some 27, optimalHumidity = None \<rparr> \<and>
    minTemp \<lparr> minTemp = Some 24, maxTemp = Some 27, optimalHumidity = None \<rparr> = Some 24 \<and>
    maxTemp \<lparr> minTemp = Some 24, maxTemp = Some 27, optimalHumidity = None \<rparr> = Some 27 \<and>
    (24::real) \<le> 27 \<and>
    vpd \<lparr> temperature = None, humidity = None, vpd = Some 1, co2 = None,
        tent_light_intensity = None, tent_temp = Some 22, tent_hum = Some 50, ambient_temp = Some 22,
        ambient_hum = Some 45, outside_temp = Some 40, outside_hum = Some 45 \<rparr> = Some 1"
    by (simp add: get_plant_stage_data_def current_plant_stage_def)
  show "\<exists>m' t tt ht.
      calculate_targets
        \<lparr> plantStage = None,
        plantStages = Some [(''LateVeg'', \<lparr> minTemp = Some 24, maxTemp = Some 27,
                                           optimalHumidity = None \<rparr>)],
        vpd_perfection = None, vpd_perfectMin = None, vpd_perfectMax = None,
        prediction_window_minutes = 5, outside_ambient_inertia = 7/10,
        sensor_history =
          [\<lparr> temperature = None, humidity = None, vpd = Some 1, co2 = None, tent_light_intensity = None,
             tent_temp = Some 22, tent_hum = Some 50, ambient_temp = Some 22, ambient_hum = Some 45,
             outside_temp = Some 30, outside_hum = Some 45, timestamp = 0 \<rparr>,
           \<lparr> temperature = None, humidity = None, vpd = Some 1, co2 = None, tent_light_intensity = None,
             tent_temp = Some 22, tent_hum = Some 50, ambient_temp = Some 22, ambient_hum = Some 45,
             outside_temp = Some 40, outside_hum = Some 45, timestamp = 60 \<rparr>],
        targets = \<lparr> light_intensity = None, exhaust_speed = None, intake_speed = None,
                    temperature_target = None, humidity_target = None \<rparr>,
        predictive_adjustments = None, devices = [], control_active = True \<rparr>
        \<lparr> temperature = None, humidity = None, vpd = Some 1, co2 = None,
        tent_light_intensity = None, tent_temp = Some 22, tent_hum = Some 50, ambient_temp = Some 22,
        ambient_hum = Some 45, outside_temp = Some 40, outside_hum = Some 45 \<rparr> = Inr m' \<and>
      temperature_target (targets m') = Some tt \<and> tt = py_round t 1 \<and>
      24 \<le> t \<and> t \<le> 27 \<and> \<bar>tt - t\<bar> \<le> 1/20 \<and>
      ((24::real) = of_int 240 / 10 \<and> (27::real) = of_int 270 / 10 \<longrightarrow> 24 \<le> tt \<and> tt \<le> 27) \<and>
      humidity_target (targets m') = Some ht \<and> 40 \<le> ht \<and> ht \<le> 85"
    by (rule mp [OF C4_targets_amended hyp])
qed

subsection \<open>C5: control value from a numeric feedback update\<close>

lemma convert_to_int_finite:
  "to_float fl v = Inr (Finite x) \<Longrightarrow>
   convert_to_int fl v m = Inr (Some (py_int (if m then x * 10 else x)))"
  by (simp add: convert_to_int_def)

lemma to_float_finite_not_None: "to_float fl v = Inr (Finite x) \<Longrightarrow> v \<noteq> PNone"
  by (auto simp: to_float_def)

text \<open>
  C5, as stated, fails twice. A value of a \<^verbatim>\<open>number\<close> entity of a Light is multiplied by
  10 whatever the special-hardware flag: with \<^verbatim>\<open>isAcInfinDev\<close> unset, the value 5 is stored
  as the voltage 50. And a value of a \<^verbatim>\<open>sensor\<close> entity is stored only for the kinds
  Light, Exhaust, Intake, Ventilation, Humidifier and Dehumidifier: for a dimmable CO2
  device the value 40 is not stored, the duty cycle stays \<^verbatim>\<open>None\<close>.
\<close>

theorem C5_control_value_counterexample:
  "\<not> isl (checkForControlValue digits_parser
      ((new_device ''lamp'' ''Light'')\<lparr> isDimmable := True,
         options := [\<lparr> entity_id = ''number.lamp_duty'', value = PFloat (Finite 5),
                       platform = ''tuya'' \<rparr>] \<rparr>)) \<and>
   \<not> isAcInfinDev (projr (checkForControlValue digits_parser
      ((new_device ''lamp'' ''Light'')\<lparr> isDimmable := True,
         options := [\<lparr> entity_id = ''number.lamp_duty'', value = PFloat (Finite 5),
                       platform = ''tuya'' \<rparr>] \<rparr>))) \<and>
   voltage (projr (checkForControlValue digits_parser
      ((new_device ''lamp'' ''Light'')\<lparr> isDimmable := True,
         options := [\<lparr> entity_id = ''number.lamp_duty'', value = PFloat (Finite 5),
                       platform = ''tuya'' \<rparr>] \<rparr>))) = Some 50 \<and>
   \<not> isl (checkForControlValue digits_parser
      ((new_device ''co2'' ''CO2'')\<lparr> isDimmable := True,
         sensors := [\<lparr> entity_id = ''sensor.co2_duty'', value = PFloat (Finite 40),
                       platform = ''tuya'' \<rparr>] \<rparr>)) \<and>
   dutyCycle (projr (checkForControlValue digits_parser
      ((new_device ''co2'' ''CO2'')\<lparr> isDimmable := True,
         sensors := [\<lparr> entity_id = ''sensor.co2_duty'', value = PFloat (Finite 40),
                       platform = ''tuya'' \<rparr>] \<rparr>))) = None"
  by code_simp

text \<open>
  C5, amended. Let the raw value of a duty or intensity entity convert to the finite
  number \<open>x\<close>, and let \<open>c\<close> be \<open>x\<close>, times 10 exactly when \<^verbatim>\<open>isAcInfinDev\<close> is set,
  truncated to an integer, and \<open>c10\<close> be \<open>x\<close> times 10, truncated.
  \<^item> A sensor entity: \<open>c\<close> goes to the voltage of a Light and to the duty cycle of an
    Exhaust, Intake, Ventilation, Humidifier or Dehumidifier, clamped into the bounds
    when both are set and differ from 0 to 100; the other field is unchanged.
  \<^item> An option entity: \<open>c10\<close> goes to the voltage of a Light, whatever the flag, and \<open>c\<close>
    to the duty cycle of every other kind, clamped into the bounds when both are set and
    the bounds control is active; the other field is unchanged, and the method returns.
  \<^item> For a dimmable device that is not under active control and has this entity only,
    \<^verbatim>\<open>checkForControlValue\<close> is this step.
\<close>

theorem C5_control_value_amended:
  "to_float fl (value e) = Inr (Finite x) \<and>
   c = of_int (py_int (if isAcInfinDev d then x * 10 else x)) \<and>
   c10 = of_int (py_int (x * 10)) \<longrightarrow>
   (relevant_sensor e \<and> deviceType d = ''Light'' \<longrightarrow>
      (\<exists>d'. sensor_step fl e d = Inr d' \<and> dutyCycle d' = dutyCycle d \<and>
         voltage d' = Some (case (minVoltage d, maxVoltage d) of
                              (Some lo, Some hi) \<Rightarrow> if lo > 0 \<or> hi < 100 then max lo (min hi c) else c
                            | _ \<Rightarrow> c))) \<and>
   (relevant_sensor e \<and>
    deviceType d \<in> {''Exhaust'', ''Intake'', ''Ventilation'', ''Humidifier'', ''Dehumidifier''} \<longrightarrow>
      (\<exists>d'. sensor_step fl e d = Inr d' \<and> voltage d' = voltage d \<and>
         dutyCycle d' = Some (case (minDuty d, maxDuty d) of
                                (Some lo, Some hi) \<Rightarrow> if lo > 0 \<or> hi < 100 then max lo (min hi c) else c
                              | _ \<Rightarrow> c))) \<and>
   (relevant_option e \<and> deviceType d = ''Light'' \<longrightarrow>
      (\<exists>d'. option_step fl e d = Inr (d', True) \<and> dutyCycle d' = dutyCycle d \<and>
         voltage d' = Some (case (minVoltage d, maxVoltage d) of
                              (Some lo, Some hi) \<Rightarrow> if is_minmax_active d then max lo (min hi c10) else c10
                            | _ \<Rightarrow> c10))) \<and>
   (relevant_option e \<and> deviceType d \<noteq> ''Light'' \<longrightarrow>
      (\<exists>d'. option_step fl e d = Inr (d', True) \<and> voltage d' = voltage d \<and>
         dutyCycle d' = Some (case (minDuty d, maxDuty d) of
                                (Some lo, Some hi) \<Rightarrow> if is_minmax_active d then max lo (min hi c) else c
                              | _ \<Rightarrow> c))) \<and>
   (isDimmable d \<and> \<not> in_active_control d \<and> sensors d = [e] \<and> options d = [] \<longrightarrow>
      checkForControlValue fl d = sensor_step fl e d) \<and>
   (isDimmable d \<and> \<not> in_active_control d \<and> sensors d = [] \<and> options d = [e] \<longrightarrow>
      checkForControlValue fl d = (case option_step fl e d of Inl ex \<Rightarrow> Inl ex | Inr (d', r) \<Rightarrow> Inr d'))"
proof (rule impI)
  assume a: "to_float fl (value e) = Inr (Finite x) \<and>
   c = of_int (py_int (if isAcInfinDev d then x * 10 else x)) \<and>
   c10 = of_int (py_int (x * 10))"
  then have conv: "convert_to_int fl (value e) m = Inr (Some (py_int (if m then x * 10 else x)))" for m
    by (simp add: convert_to_int_finite)
  from a have nn: "value e \<noteq> PNone"
    by (auto dest: to_float_finite_not_None)
  have s1: "relevant_sensor e \<and> deviceType d = ''Light'' \<longrightarrow>
      (\<exists>d'. sensor_step fl e d = Inr d' \<and> dutyCycle d' = dutyCycle d \<and>
         voltage d' = Some (case (minVoltage d, maxVoltage d) of
                              (Some lo, Some hi) \<Rightarrow> if lo > 0 \<or> hi < 100 then max lo (min hi c) else c
                            | _ \<Rightarrow> c))"
    using a by (auto simp: sensor_step_def conv nn clamp_voltage_def split: option.splits)
  have s2: "relevant_sensor e \<and>
    deviceType d \<in> {''Exhaust'', ''Intake'', ''Ventilation'', ''Humidifier'', ''Dehumidifier''} \<longrightarrow>
      (\<exists>d'. sensor_step fl e d = Inr d' \<and> voltage d' = voltage d \<and>
         dutyCycle d' = Some (case (minDuty d, maxDuty d) of
                                (Some lo, Some hi) \<Rightarrow> if lo > 0 \<or> hi < 100 then max lo (min hi c) else c
                              | _ \<Rightarrow> c))"
    using a by (auto simp: sensor_step_def conv nn split: option.splits)
  have o1: "relevant_option e \<and> deviceType d = ''Light'' \<longrightarrow>
      (\<exists>d'. option_step fl e d = Inr (d', True) \<and> dutyCycle d' = dutyCycle d \<and>
         voltage d' = Some (case (minVoltage d, maxVoltage d) of
                              (Some lo, Some hi) \<Rightarrow> if is_minmax_active d then max lo (min hi c10) else c10
                            | _ \<Rightarrow> c10))"
    using a by (auto simp: option_step_def conv clamp_voltage_def split: option.splits)
  have o2: "relevant_option e \<and> deviceType d \<noteq> ''Light'' \<longrightarrow>
      (\<exists>d'. option_step fl e d = Inr (d', True) \<and> voltage d' = voltage d \<and>
         dutyCycle d' = Some (case (minDuty d, maxDuty d) of
                                (Some lo, Some hi) \<Rightarrow> if is_minmax_active d then max lo (min hi c) else c
                              | _ \<Rightarrow> c))"
    using a by (auto simp: option_step_def conv split: option.splits)
  have w1: "isDimmable d \<and> \<not> in_active_control d \<and> sensors d = [e] \<and> options d = [] \<longrightarrow>
      checkForControlValue fl d = sensor_step fl e d"
  proof
    assume h: "isDimmable d \<and> \<not> in_active_control d \<and> sensors d = [e] \<and> options d = []"
    have "options d' = options d" if "sensor_step fl e d = Inr d'" for d'
      using that by (auto simp: sensor_step_def Let_def split: if_splits sum.splits option.splits)
    with h show "checkForControlValue fl d = sensor_step fl e d"
      by (auto simp: checkForControlValue_def split: sum.splits)
  qed
  have w2: "isDimmable d \<and> \<not> in_active_control d \<and> sensors d = [] \<and> options d = [e] \<longrightarrow>
      checkForControlValue fl d = (case option_step fl e d of Inl ex \<Rightarrow> Inl ex | Inr (d', r) \<Rightarrow> Inr d')"
    by (auto simp: checkForControlValue_def split: sum.splits)
  from s1 s2 o1 o2 w1 w2 show "(relevant_sensor e \<and> deviceType d = ''Light'' \<longrightarrow>
      (\<exists>d'. sensor_step fl e d = Inr d' \<and> dutyCycle d' = dutyCycle d \<and>
         voltage d' = Some (case (minVoltage d, maxVoltage d) of
                              (Some lo, Some hi) \<Rightarrow> if lo > 0 \<or> hi < 100 then max lo (min hi c) else c
                            | _ \<Rightarrow> c))) \<and>
   (relevant_sensor e \<and>
    deviceType d \<in> {''Exhaust'', ''Intake'', ''Ventilation'', ''Humidifier'', ''Dehumidifier''} \<longrightarrow>
      (\<exists>d'. sensor_step fl e d = Inr d' \<and> voltage d' = voltage d \<and>
         dutyCycle d' = Some (case (minDuty d, maxDuty d) of
                                (Some lo, Some hi) \<Rightarrow> if lo > 0 \<or> hi < 100 then max lo (min hi c) else c
                              | _ \<Rightarrow> c))) \<and>
   (relevant_option e \<and> deviceType d = ''Light'' \<longrightarrow>
      (\<exists>d'. option_step fl e d = Inr (d', True) \<and> dutyCycle d' = dutyCycle d \<and>
         voltage d' = Some (case (minVoltage d, maxVoltage d) of
                              (Some lo, Some hi) \<Rightarrow> if is_minmax_active d then max lo (min hi c10) else c10
                            | _ \<Rightarrow> c10))) \<and>
   (relevant_option e \<and> deviceType d \<noteq> ''Light'' \<longrightarrow>
      (\<exists>d'. option_step fl e d = Inr (d', True) \<and> voltage d' = voltage d \<and>
         dutyCycle d' = Some (case (minDuty d, maxDuty d) of
                                (Some lo, Some hi) \<Rightarrow> if is_minmax_active d then max lo (min hi c) else c
                              | _ \<Rightarrow> c))) \<and>
   (isDimmable d \<and> \<not> in_active_control d \<and> sensors d = [e] \<and> options d = [] \<longrightarrow>
      checkForControlValue fl d = sensor_step fl e d) \<and>
   (isDimmable d \<and> \<not> in_active_control d \<and> sensors d = [] \<and> options d = [e] \<longrightarrow>
      checkForControlValue fl d = (case option_step fl e d of Inl ex \<Rightarrow> Inl ex | Inr (d', r) \<Rightarrow> Inr d'))"
    by (intro conjI)
qed

text \<open>
  The scenario of the specification: an Exhaust with the bounds 10 to 95 and the duty
  cycle 50 receives the raw value \<^verbatim>\<open>"110"\<close> on its duty sensor; the duty cycle becomes 95.
\<close>

theorem C5_control_value_amended_witness:
  "\<exists>d'. checkForControlValue digits_parser
      ((new_device ''fan'' ''Exhaust'')\<lparr> isDimmable := True, dutyCycle := Some 50,
         minDuty := Some 10, maxDuty := Some 95, is_minmax_active := True,
         sensors := [\<lparr> entity_id = ''sensor.fan_duty'', value = PStr ''110'',
                       platform = ''tuya'' \<rparr>] \<rparr>) = Inr d' \<and>
      dutyCycle d' = Some 95 \<and> voltage d' = None"
proof -
  define e where "e = \<lparr> entity_id = ''sensor.fan_duty'', value = PStr ''110'', platform = ''tuya'' \<rparr>"
  define d where "d = (new_device ''fan'' ''Exhaust'')\<lparr> isDimmable := True, dutyCycle := Some 50,
         minDuty := Some 10, maxDuty := Some 95, is_minmax_active := True, sensors := [e] \<rparr>"
  have hyp: "to_float digits_parser (value e) = Inr (Finite 110) \<and>
     (110::real) = of_int (py_int (if isAcInfinDev d then 110 * 10 else 110)) \<and>
     (1100::real) = of_int (py_int (110 * 10))"
    by (simp add: e_def d_def new_device_def to_float_def digits_parser_def py_int_def)
  have rel: "relevant_sensor e"
    by (simp add: e_def relevant_sensor_def relevant_keys_def lower_def lower_char_def)
  have dev: "deviceType d = ''Exhaust''" "isDimmable d" "\<not> in_active_control d" "sensors d = [e]"
    "options d = []" "minDuty d = Some 10" "maxDuty d = Some 95" "voltage d = None"
    by (simp_all add: d_def new_device_def)
  from mp [OF C5_control_value_amended hyp] rel dev
  have "\<exists>d'. checkForControlValue digits_parser d = Inr d' \<and> dutyCycle d' = Some 95 \<and> voltage d' = None"
    by auto
  then show ?thesis
    by (simp add: d_def e_def)
qed

subsection \<open>C6: capability registration\<close>

lemma update_inv: "list_all (\<lambda>(k, c). cap_inv c) cs \<Longrightarrow> cap_inv v \<Longrightarrow> map_of cs k \<noteq> None \<Longrightarrow>
  list_all (\<lambda>(k, c). cap_inv c) (AList.update k v cs)"
  by (induction cs) (auto)

lemma map_of_inv: "list_all (\<lambda>(k, c). cap_inv c) cs \<Longrightarrow> map_of cs k = Some c \<Longrightarrow> cap_inv c"
  by (induction cs) (auto split: if_splits)

lemma cap_inv_register: "cap_inv c \<Longrightarrow> n \<notin> set (devEntities c) \<Longrightarrow>
   cap_inv (c\<lparr>state := True, count := count c + 1, devEntities := devEntities c @ [n]\<rparr>)"
  by (simp add: cap_inv_def)

lemma register_caps_inv:
  "register_caps d cm cs = Inr cs' \<Longrightarrow> list_all (\<lambda>(k, c). cap_inv c) cs \<Longrightarrow> list_all (\<lambda>(k, c). cap_inv c) cs'"
proof (induction d cm cs rule: register_caps.induct)
  case (1 d cs)
  then show ?case by simp
next
  case (2 d cap deviceTypes rest cs)
  then show ?case
    by (auto split: if_splits option.splits simp: update_inv map_of_inv cap_inv_register)
qed

lemma has_name_update:
  "has_name n cs k \<Longrightarrow> map_of cs k' = Some c \<Longrightarrow>
   has_name n (AList.update k' (c\<lparr>state := True, count := count c + 1, devEntities := devEntities c @ [m]\<rparr>) cs) k"
  by (auto simp: has_name_def update_conv' split: option.splits)

lemma register_caps_mono:
  "register_caps d cm cs = Inr cs' \<Longrightarrow> has_name n cs k \<Longrightarrow> has_name n cs' k"
proof (induction d cm cs rule: register_caps.induct)
  case (1 d cs)
  then show ?case by simp
next
  case (2 d cap deviceTypes rest cs)
  then show ?case
    by (auto split: if_splits option.splits simp: has_name_update)
qed

lemma has_name_fresh:
  "map_of cs k = Some c \<Longrightarrow>
   has_name n (AList.update k (c\<lparr>state := True, count := count c + 1, devEntities := devEntities c @ [n]\<rparr>) cs) k"
  by (simp add: has_name_def update_conv')

lemma register_caps_registered:
  "register_caps d cm cs = Inr cs' \<Longrightarrow> (cap, dts) \<in> set cm \<Longrightarrow> lower (deviceType d) \<in> set (map lower dts) \<Longrightarrow>
   has_name (deviceName d) cs' cap"
proof (induction d cm cs rule: register_caps.induct)
  case (1 d cs)
  then show ?case by simp
next
  case (2 d cap' deviceTypes rest cs)
  show ?case
  proof (cases "(cap, dts) = (cap', deviceTypes)")
    case True
    with 2 show ?thesis
      by (auto split: if_splits option.splits
               dest: register_caps_mono [where k = cap' and n = "deviceName d"] has_name_fresh [where n = "deviceName d"]
               simp: has_name_def [of _ cs])
  next
    case False
    with 2 show ?thesis
      by (auto split: if_splits option.splits)
  qed
qed

lemma register_caps_skip:
  "\<forall>(cap, dts) \<in> set cm. lower (deviceType d) \<in> set (map lower dts) \<longrightarrow> has_name (deviceName d) cs cap \<Longrightarrow>
   register_caps d cm cs = Inr cs"
  by (induction cm) (auto simp: has_name_def split: option.splits)

lemma register_caps_idem:
  assumes "register_caps d cm cs = Inr cs'"
  shows "register_caps d cm cs' = Inr cs'"
proof (rule register_caps_skip, clarify)
  fix cap dts
  assume "(cap, dts) \<in> set cm" "lower (deviceType d) \<in> set (map lower dts)"
  with assms show "has_name (deviceName d) cs' cap"
    by (rule register_caps_registered)
qed

lemma register_caps_total:
  "fst ` set cm \<subseteq> fst ` set cs \<Longrightarrow> \<exists>cs'. register_caps d cm cs = Inr cs'"
proof (induction d cm cs rule: register_caps.induct)
  case (1 d cs)
  then show ?case by simp
next
  case (2 d cap deviceTypes rest cs)
  then have "map_of cs cap \<noteq> None"
    by (simp add: map_of_eq_None_iff)
  then obtain c where c: "map_of cs cap = Some c"
    by blast
  from 2(4) have sub: "fst ` set rest \<subseteq> fst ` set cs"
    by simp
  then have sub': "fst ` set rest \<subseteq> fst ` set (AList.update cap v cs)" for v
    by (auto simp: dom_update)
  from 2(1-3) c sub sub' show ?case
    by (simp split: option.splits)
qed

lemma register_caps_keys:
  "register_caps d cm cs = Inr cs' \<Longrightarrow> fst ` set cs' = fst ` set cs"
proof (induction d cm cs rule: register_caps.induct)
  case (1 d cs)
  then show ?case by simp
next
  case (2 d cap deviceTypes rest cs)
  show ?case
  proof (cases "lower (deviceType d) \<in> set (map lower deviceTypes)")
    case False
    with 2 show ?thesis by simp
  next
    case match: True
    show ?thesis
    proof (cases "map_of cs cap")
      case None
      with 2(4) match show ?thesis by simp
    next
      case (Some c)
      then have mem: "cap \<in> fst ` set cs"
        by (metis map_of_eq_None_iff option.distinct(1))
      show ?thesis
      proof (cases "deviceName d \<in> set (devEntities c)")
        case True
        with 2 match Some show ?thesis by simp
      next
        case False
        with 2 match Some have "fst ` set cs' = fst ` set (AList.update cap
            (c\<lparr>state := True, count := count c + 1, devEntities := devEntities c @ [deviceName d]\<rparr>) cs)"
          by simp
        with mem show ?thesis
          by (simp add: dom_update insert_absorb)
      qed
    qed
  qed
qed

lemma identify_unfold:
  "deviceName d \<noteq> ''ogb'' \<Longrightarrow>
   identifyCapabilities d store =
     (case register_caps d capMapping (start_caps store) of Inl e \<Rightarrow> Inl e | Inr cs' \<Rightarrow> Inr (Some cs'))"
  by (simp add: identifyCapabilities_def)

lemma start_caps_nonempty: "start_caps store \<noteq> []"
  by (auto simp: start_caps_def init_capabilities_def capMapping_def split: option.splits list.splits)

lemma start_caps_Some: "cs \<noteq> [] \<Longrightarrow> start_caps (Some cs) = cs"
  by (cases cs) (simp_all add: start_caps_def)

lemma register_caps_nonempty:
  "register_caps d cm cs = Inr cs' \<Longrightarrow> cs \<noteq> [] \<Longrightarrow> cs' \<noteq> []"
  by (drule register_caps_keys) auto

lemma identify_registered:
  assumes "identifyCapabilities d store = Inr store'"
  shows "registered d store'"
proof (cases "deviceName d = ''ogb''")
  case True
  then show ?thesis by (simp add: registered_def)
next
  case False
  with assms obtain cs' where r: "register_caps d capMapping (start_caps store) = Inr cs'"
    and s: "store' = Some cs'"
    by (auto simp: identify_unfold split: sum.splits)
  from r have "cs' \<noteq> []"
    by (rule register_caps_nonempty) (rule start_caps_nonempty)
  moreover have "has_name (deviceName d) cs' cap"
    if "(cap, dts) \<in> set capMapping" "lower (deviceType d) \<in> set (map lower dts)" for cap dts
    using r that by (rule register_caps_registered)
  ultimately show ?thesis
    using s by (auto simp: registered_def list_all_iff)
qed

lemma registered_unchanged:
  assumes "registered d store"
  shows "identifyCapabilities d store = Inr store"
proof (cases "deviceName d = ''ogb''")
  case True
  then show ?thesis by (simp add: identifyCapabilities_def)
next
  case False
  with assms obtain cs where s: "store = Some cs" and ne: "cs \<noteq> []"
    and h: "\<forall>(cap, dts) \<in> set capMapping.
              lower (deviceType d) \<in> set (map lower dts) \<longrightarrow> has_name (deviceName d) cs cap"
    by (auto simp: registered_def list_all_iff split: option.splits)
  from h have "register_caps d capMapping cs = Inr cs"
    by (rule register_caps_skip)
  with False s ne show ?thesis
    by (simp add: identify_unfold start_caps_Some)
qed

lemma registered_preserved:
  assumes "registered d store" and "identifyCapabilities d' store = Inr store'"
  shows "registered d store'"
proof (cases "deviceName d = ''ogb'' \<or> deviceName d' = ''ogb''")
  case True
  with assms show ?thesis
    by (auto simp: registered_def identifyCapabilities_def)
next
  case False
  with assms(1) obtain cs where s: "store = Some cs" and ne: "cs \<noteq> []"
    and h: "\<forall>(cap, dts) \<in> set capMapping.
              lower (deviceType d) \<in> set (map lower dts) \<longrightarrow> has_name (deviceName d) cs cap"
    by (auto simp: registered_def list_all_iff split: option.splits)
  from False assms(2) s ne obtain cs' where r: "register_caps d' capMapping cs = Inr cs'"
    and s': "store' = Some cs'"
    by (auto simp: identify_unfold start_caps_Some split: sum.splits)
  from r ne have "cs' \<noteq> []"
    by (rule register_caps_nonempty)
  moreover from h r have "\<forall>(cap, dts) \<in> set capMapping.
              lower (deviceType d) \<in> set (map lower dts) \<longrightarrow> has_name (deviceName d) cs' cap"
    by (auto dest: register_caps_mono)
  ultimately show ?thesis
    using s' by (simp add: registered_def list_all_iff)
qed

lemma store_inv_init: "list_all (\<lambda>(k, c). cap_inv c) init_capabilities"
  by (simp add: init_capabilities_def capMapping_def cap_inv_def)

lemma store_inv_start: "store_inv store \<Longrightarrow> list_all (\<lambda>(k, c). cap_inv c) (start_caps store)"
  by (auto simp: store_inv_def start_caps_def store_inv_init split: option.splits list.splits)

lemma identify_inv:
  assumes "store_inv store" and "identifyCapabilities d store = Inr store'"
  shows "store_inv store'"
proof (cases "deviceName d = ''ogb''")
  case True
  with assms show ?thesis by (simp add: identifyCapabilities_def)
next
  case False
  with assms(2) obtain cs' where r: "register_caps d capMapping (start_caps store) = Inr cs'"
    and s: "store' = Some cs'"
    by (auto simp: identify_unfold split: sum.splits)
  from r store_inv_start [OF assms(1)] have "list_all (\<lambda>(k, c). cap_inv c) cs'"
    by (rule register_caps_inv)
  with s show ?thesis by (simp add: store_inv_def)
qed

lemma complete_start: "complete_store store \<Longrightarrow> fst ` set capMapping \<subseteq> fst ` set (start_caps store)"
  by (auto simp: complete_store_def list_all_iff map_of_eq_None_iff)

lemma identify_total:
  assumes "complete_store store"
  shows "\<exists>store'. identifyCapabilities d store = Inr store' \<and> complete_store store'"
proof (cases "deviceName d = ''ogb''")
  case True
  with assms show ?thesis by (simp add: identifyCapabilities_def)
next
  case False
  from complete_start [OF assms] obtain cs' where r: "register_caps d capMapping (start_caps store) = Inr cs'"
    using register_caps_total by blast
  from r have "fst ` set cs' = fst ` set (start_caps store)"
    by (rule register_caps_keys)
  moreover from r have "start_caps (Some cs') = cs'"
    by (intro start_caps_Some register_caps_nonempty [OF r] start_caps_nonempty)
  ultimately have "complete_store (Some cs')"
    using complete_start [OF assms]
    by (force simp: complete_store_def list_all_iff map_of_eq_None_iff)
  with r False show ?thesis
    by (simp add: identify_unfold)
qed

lemma register_all_total:
  "complete_store store \<Longrightarrow> store_inv store \<Longrightarrow>
   \<exists>store'. register_all ds store = Inr store' \<and> complete_store store' \<and> store_inv store'"
proof (induction ds arbitrary: store)
  case Nil
  then show ?case by simp
next
  case (Cons d ds)
  from identify_total [OF Cons.prems(1)] obtain s1
    where s1: "identifyCapabilities d store = Inr s1" "complete_store s1"
    by blast
  from Cons.prems(2) s1(1) have "store_inv s1"
    by (rule identify_inv)
  from Cons.IH [OF s1(2) this] s1(1) show ?case
    by simp
qed

lemma register_all_registered:
  "register_all ds store = Inr store' \<Longrightarrow> d \<in> set ds \<or> registered d store \<Longrightarrow> registered d store'"
proof (induction ds arbitrary: store)
  case Nil
  then show ?case by simp
next
  case (Cons a ds)
  from Cons.prems(1) obtain s1 where s1: "identifyCapabilities a store = Inr s1"
    and rest: "register_all ds s1 = Inr store'"
    by (auto split: sum.splits)
  from Cons.prems(2) s1 have "d \<in> set ds \<or> registered d s1"
    by (auto intro: identify_registered registered_preserved)
  with rest show ?case
    by (rule Cons.IH)
qed

text \<open>What one run of the loop does to the entry of a capability.\<close>

lemma register_caps_other:
  "register_caps d cm cs = Inr cs' \<Longrightarrow> cap \<notin> fst ` set cm \<Longrightarrow> map_of cs' cap = map_of cs cap"
proof (induction d cm cs rule: register_caps.induct)
  case (1 d cs)
  then show ?case by simp
next
  case (2 d cap' deviceTypes rest cs)
  then show ?case
    by (auto split: if_splits option.splits simp: update_conv')
qed

lemma register_caps_entry:
  assumes "register_caps d cm cs = Inr cs'" and "distinct (map fst cm)"
    and "(cap, dts) \<in> set cm" and "map_of cs cap = Some c"
  shows "map_of cs' cap =
     Some (if lower (deviceType d) \<in> set (map lower dts) \<and> deviceName d \<notin> set (devEntities c)
           then c\<lparr>state := True, count := count c + 1, devEntities := devEntities c @ [deviceName d]\<rparr>
           else c)"
  using assms
proof (induction d cm cs rule: register_caps.induct)
  case (1 d cs)
  then show ?case by simp
next
  case (2 d cap' deviceTypes rest cs)
  from "2.prems"(2) have fresh: "cap' \<notin> fst ` set rest" and dist: "distinct (map fst rest)"
    by simp_all
  show ?case
  proof (cases "(cap, dts) = (cap', deviceTypes)")
    case True
    then have eq: "cap' = cap" "deviceTypes = dts"
      by simp_all
    show ?thesis
    proof (cases "lower (deviceType d) \<in> set (map lower dts) \<and> deviceName d \<notin> set (devEntities c)")
      case False
      with "2.prems"(1,4) eq have "register_caps d rest cs = Inr cs'"
        by (auto split: if_splits)
      from register_caps_other [OF this] fresh eq "2.prems"(4) have "map_of cs' cap = Some c"
        by simp
      then show ?thesis
        by (simp only: False if_False)
    next
      case True
      with "2.prems"(1,4) eq have "register_caps d rest (AList.update cap
          (c\<lparr>state := True, count := count c + 1, devEntities := devEntities c @ [deviceName d]\<rparr>) cs) = Inr cs'"
        by simp
      from register_caps_other [OF this] fresh eq True show ?thesis
        by (simp add: update_conv')
    qed
  next
    case False
    with "2.prems"(3) have mem: "(cap, dts) \<in> set rest"
      by auto
    with fresh have ne: "cap \<noteq> cap'"
      by force
    show ?thesis
    proof (cases "lower (deviceType d) \<in> set (map lower deviceTypes)")
      case nomatch: False
      with "2.prems"(1) have "register_caps d rest cs = Inr cs'"
        by simp
      from "2.IH"(3) [OF nomatch this dist mem "2.prems"(4)] show ?thesis .
    next
      case match: True
      show ?thesis
      proof (cases "map_of cs cap'")
        case None
        with "2.prems"(1) match show ?thesis by simp
      next
        case (Some c')
        show ?thesis
        proof (cases "deviceName d \<in> set (devEntities c')")
          case True
          with "2.prems"(1) match Some have "register_caps d rest cs = Inr cs'"
            by simp
          from "2.IH"(1) [OF match Some True this dist mem "2.prems"(4)] show ?thesis .
        next
          case False
          with "2.prems"(1) match Some have r: "register_caps d rest (AList.update cap'
              (c'\<lparr>state := True, count := count c' + 1, devEntities := devEntities c' @ [deviceName d]\<rparr>) cs) = Inr cs'"
            by simp
          from ne "2.prems"(4) have "map_of (AList.update cap'
              (c'\<lparr>state := True, count := count c' + 1, devEntities := devEntities c' @ [deviceName d]\<rparr>) cs) cap = Some c"
            by (simp add: update_conv')
          from "2.IH"(2) [OF match Some False r dist mem this] show ?thesis .
        qed
      qed
    qed
  qed
qed

lemma capMapping_distinct: "distinct (map fst capMapping)"
  by (simp add: capMapping_def)

lemma identify_entry:
  assumes "deviceName d \<noteq> ''ogb''" and "(cap, dts) \<in> set capMapping"
    and "map_of (start_caps store) cap = Some c" and "identifyCapabilities d store = Inr store'"
  shows "\<exists>cs'. store' = Some cs' \<and> cs' \<noteq> [] \<and> map_of cs' cap =
     Some (if lower (deviceType d) \<in> set (map lower dts) \<and> deviceName d \<notin> set (devEntities c)
           then c\<lparr>state := True, count := count c + 1, devEntities := devEntities c @ [deviceName d]\<rparr>
           else c)"
proof -
  from assms(1,4) obtain cs' where r: "register_caps d capMapping (start_caps store) = Inr cs'"
    and s: "store' = Some cs'"
    by (auto simp: identify_unfold split: sum.splits)
  from r have "cs' \<noteq> []"
    by (rule register_caps_nonempty) (rule start_caps_nonempty)
  with s register_caps_entry [OF r capMapping_distinct assms(2,3)] show ?thesis
    by simp
qed

text \<open>The names listed under a capability, after one registration and after a sequence.\<close>

lemma identify_names:
  assumes "complete_store store" and "identifyCapabilities d store = Inr store'"
    and "(cap, dts) \<in> set capMapping"
  shows "names_of store' cap = names_of store cap \<union>
     (if deviceName d \<noteq> ''ogb'' \<and> lower (deviceType d) \<in> set (map lower dts) then {deviceName d} else {})"
proof (cases "deviceName d = ''ogb''")
  case True
  with assms(2) show ?thesis
    by (simp add: identifyCapabilities_def)
next
  case False
  from assms(1,3) obtain c where c: "map_of (start_caps store) cap = Some c"
    by (auto simp: complete_store_def list_all_iff)
  from identify_entry [OF False assms(3) c assms(2)] obtain cs' where s: "store' = Some cs'"
    and ne: "cs' \<noteq> []" and e: "map_of cs' cap =
     Some (if lower (deviceType d) \<in> set (map lower dts) \<and> deviceName d \<notin> set (devEntities c)
           then c\<lparr>state := True, count := count c + 1, devEntities := devEntities c @ [deviceName d]\<rparr>
           else c)"
    by blast
  from ne have "start_caps (Some cs') = cs'"
    by (rule start_caps_Some)
  with s e c False show ?thesis
    by (auto simp: names_of_def)
qed

lemma register_all_names:
  "complete_store store \<Longrightarrow> register_all ds store = Inr store' \<Longrightarrow> (cap, dts) \<in> set capMapping \<Longrightarrow>
   names_of store' cap = names_of store cap \<union>
     {deviceName d | d. d \<in> set ds \<and> deviceName d \<noteq> ''ogb'' \<and> lower (deviceType d) \<in> set (map lower dts)}"
proof (induction ds arbitrary: store)
  case Nil
  then show ?case by simp
next
  case (Cons a ds)
  from identify_total [OF Cons.prems(1)] obtain s1
    where s1: "identifyCapabilities a store = Inr s1" "complete_store s1"
    by blast
  with Cons.prems(2) have rest: "register_all ds s1 = Inr store'"
    by simp
  from Cons.IH [OF s1(2) rest Cons.prems(3)] identify_names [OF Cons.prems(1) s1(1) Cons.prems(3)]
  show ?case
    by auto
qed

lemma names_of_unset: "names_of None cap = {}"
  by (auto simp: names_of_def start_caps_def init_capabilities_def capMapping_def split: option.splits)

text \<open>The scenario of the specification, for any device of the exhaust type.\<close>

lemma lower_literals:
  "lower ''heater'' = ''heater''" "lower ''cooler'' = ''cooler''" "lower ''climate'' = ''climate''"
  "lower ''humidifier'' = ''humidifier''" "lower ''dehumidifier'' = ''dehumidifier''"
  "lower ''ventilation'' = ''ventilation''" "lower ''exhaust'' = ''exhaust''"
  "lower ''intake'' = ''intake''" "lower ''light'' = ''light''" "lower ''co2'' = ''co2''"
  "lower ''pump'' = ''pump''"
  by (simp_all add: lower_def lower_char_def)

lemma identify_exhaust:
  assumes "lower (deviceType d) = ''exhaust''" and "deviceName d \<noteq> ''ogb''"
  shows "identifyCapabilities d None =
     Inr (Some (AList.update ''canExhaust'' \<lparr>state = True, count = 1, devEntities = [deviceName d]\<rparr>
                  init_capabilities))"
  using assms
  by (simp add: identifyCapabilities_def start_caps_def init_capabilities_def capMapping_def
        lower_literals)

text \<open>
  C6. Starting from a store without capabilities, every sequence of registrations
  succeeds and ends in a store in which, for every capability, \<open>count\<close> equals the
  number of listed names and no name occurs twice, the names listed are exactly the
  names of the devices of the sequence that have a type of the capability (the internal
  device \<^verbatim>\<open>ogb\<close> apart), and registering any device of the sequence once more leaves the
  store unchanged.

  From any store: a registration that succeeds lists the device under every capability
  of its type, and repeating it changes nothing; it keeps the invariant; and it does
  this to the entry \<open>c\<close> of a capability: when the device has a type of the capability
  and its name is not listed, the entry is switched on, \<open>count\<close> goes up by one and the
  name is appended; otherwise the entry stays as it is.

  In particular, a device of the exhaust type registered twice on an unset store leaves
  \<^verbatim>\<open>canExhaust\<close> with \<open>count\<close> 1 and its name as the one entry.
\<close>

theorem C6_idempotent_registration:
  "(\<exists>store'. register_all ds None = Inr store' \<and> store_inv store' \<and>
       (\<forall>d \<in> set ds. identifyCapabilities d store' = Inr store') \<and>
       (\<forall>(cap, dts) \<in> set capMapping.
          names_of store' cap =
            {deviceName d | d. d \<in> set ds \<and> deviceName d \<noteq> ''ogb'' \<and>
                               lower (deviceType d) \<in> set (map lower dts)})) \<and>
   (identifyCapabilities d store = Inr store' \<longrightarrow>
      registered d store' \<and> identifyCapabilities d store' = Inr store') \<and>
   (store_inv store \<and> identifyCapabilities d store = Inr store' \<longrightarrow> store_inv store') \<and>
   (deviceName d \<noteq> ''ogb'' \<and> (cap, dts) \<in> set capMapping \<and>
    map_of (start_caps store) cap = Some c \<and> identifyCapabilities d store = Inr store' \<longrightarrow>
      (\<exists>cs'. store' = Some cs' \<and>
         map_of cs' cap =
           Some (if lower (deviceType d) \<in> set (map lower dts) \<and> deviceName d \<notin> set (devEntities c)
                 then c\<lparr>state := True, count := count c + 1,
                        devEntities := devEntities c @ [deviceName d]\<rparr>
                 else c))) \<and>
   (lower (deviceType d) = ''exhaust'' \<and> deviceName d \<noteq> ''ogb'' \<longrightarrow>
      (\<exists>cs'. register_all [d, d] None = Inr (Some cs') \<and>
         map_of cs' ''canExhaust'' = Some \<lparr>state = True, count = 1, devEntities = [deviceName d]\<rparr>))"
proof (intro conjI)
  have start: "complete_store None" "store_inv None"
    by (simp_all add: complete_store_def store_inv_def start_caps_def init_capabilities_def capMapping_def)
  then obtain s where s: "register_all ds None = Inr s" "store_inv s"
    using register_all_total by blast
  have "identifyCapabilities d s = Inr s" if "d \<in> set ds" for d
    using s(1) that by (intro registered_unchanged register_all_registered [where ds = ds]) auto
  moreover have "names_of s cap =
      {deviceName d | d. d \<in> set ds \<and> deviceName d \<noteq> ''ogb'' \<and> lower (deviceType d) \<in> set (map lower dts)}"
    if "(cap, dts) \<in> set capMapping" for cap dts
    using register_all_names [OF start(1) s(1) that] by (simp add: names_of_unset)
  ultimately show "\<exists>store'. register_all ds None = Inr store' \<and> store_inv store' \<and>
       (\<forall>d \<in> set ds. identifyCapabilities d store' = Inr store') \<and>
       (\<forall>(cap, dts) \<in> set capMapping.
          names_of store' cap =
            {deviceName d | d. d \<in> set ds \<and> deviceName d \<noteq> ''ogb'' \<and>
                               lower (deviceType d) \<in> set (map lower dts)})"
    using s by blast
next
  show "identifyCapabilities d store = Inr store' \<longrightarrow>
      registered d store' \<and> identifyCapabilities d store' = Inr store'"
  proof
    assume "identifyCapabilities d store = Inr store'"
    then have "registered d store'"
      by (rule identify_registered)
    then show "registered d store' \<and> identifyCapabilities d store' = Inr store'"
      by (simp add: registered_unchanged)
  qed
next
  show "store_inv store \<and> identifyCapabilities d store = Inr store' \<longrightarrow> store_inv store'"
    by (blast intro: identify_inv)
next
  show "deviceName d \<noteq> ''ogb'' \<and> (cap, dts) \<in> set capMapping \<and>
    map_of (start_caps store) cap = Some c \<and> identifyCapabilities d store = Inr store' \<longrightarrow>
      (\<exists>cs'. store' = Some cs' \<and>
         map_of cs' cap =
           Some (if lower (deviceType d) \<in> set (map lower dts) \<and> deviceName d \<notin> set (devEntities c)
                 then c\<lparr>state := True, count := count c + 1,
                        devEntities := devEntities c @ [deviceName d]\<rparr>
                 else c))"
  proof
    assume a: "deviceName d \<noteq> ''ogb'' \<and> (cap, dts) \<in> set capMapping \<and>
      map_of (start_caps store) cap = Some c \<and> identifyCapabilities d store = Inr store'"
    then have "\<exists>cs'. store' = Some cs' \<and> cs' \<noteq> [] \<and> map_of cs' cap =
       Some (if lower (deviceType d) \<in> set (map lower dts) \<and> deviceName d \<notin> set (devEntities c)
             then c\<lparr>state := True, count := count c + 1, devEntities := devEntities c @ [deviceName d]\<rparr>
             else c)"
      by (intro identify_entry [where store = store]) simp_all
    then show "\<exists>cs'. store' = Some cs' \<and>
         map_of cs' cap =
           Some (if lower (deviceType d) \<in> set (map lower dts) \<and> deviceName d \<notin> set (devEntities c)
                 then c\<lparr>state := True, count := count c + 1,
                        devEntities := devEntities c @ [deviceName d]\<rparr>
                 else c)"
      by blast
  qed
next
  show "lower (deviceType d) = ''exhaust'' \<and> deviceName d \<noteq> ''ogb'' \<longrightarrow>
      (\<exists>cs'. register_all [d, d] None = Inr (Some cs') \<and>
         map_of cs' ''canExhaust'' = Some \<lparr>state = True, count = 1, devEntities = [deviceName d]\<rparr>)"
  proof
    assume a: "lower (deviceType d) = ''exhaust'' \<and> deviceName d \<noteq> ''ogb''"
    define cs where "cs = AList.update ''canExhaust''
        \<lparr>state = True, count = 1, devEntities = [deviceName d]\<rparr> init_capabilities"
    from a have once: "identifyCapabilities d None = Inr (Some cs)"
      unfolding cs_def by (intro identify_exhaust) simp_all
    then have "identifyCapabilities d (Some cs) = Inr (Some cs)"
      by (intro registered_unchanged identify_registered)
    with once have "register_all [d, d] None = Inr (Some cs)"
      by simp
    moreover have "map_of cs ''canExhaust'' = Some \<lparr>state = True, count = 1, devEntities = [deviceName d]\<rparr>"
      by (simp add: cs_def update_conv')
    ultimately show "\<exists>cs'. register_all [d, d] None = Inr (Some cs') \<and>
         map_of cs' ''canExhaust'' = Some \<lparr>state = True, count = 1, devEntities = [deviceName d]\<rparr>"
      by blast
  qed
qed

text \<open>The scenario of the specification: one exhaust fan registered twice.\<close>

theorem C6_idempotent_registration_witness:
  "identifyCapabilities (new_device ''fan1'' ''Exhaust'') None = Inr (Some 
       (AList.update ''canExhaust'' \<lparr>state = True, count = 1, devEntities = [''fan1'']\<rparr>
          init_capabilities)) \<and>
   register_all [(new_device ''fan1'' ''Exhaust''), (new_device ''fan1'' ''Exhaust'')] None = Inr (Some 
       (AList.update ''canExhaust'' \<lparr>state = True, count = 1, devEntities = [''fan1'']\<rparr>
          init_capabilities)) \<and>
   store_inv (Some 
       (AList.update ''canExhaust'' \<lparr>state = True, count = 1, devEntities = [''fan1'']\<rparr>
          init_capabilities)) \<and>
   map_of 
       (AList.update ''canExhaust'' \<lparr>state = True, count = 1, devEntities = [''fan1'']\<rparr>
          init_capabilities) ''canExhaust'' = Some \<lparr>state = True, count = 1, devEntities = [''fan1'']\<rparr> \<and>
   names_of (Some 
       (AList.update ''canExhaust'' \<lparr>state = True, count = 1, devEntities = [''fan1'']\<rparr>
          init_capabilities)) ''canExhaust'' = {''fan1''}"
proof -
  define fan where "fan = new_device ''fan1'' ''Exhaust''"
  define cs where "cs = AList.update ''canExhaust''
      \<lparr>state = True, count = 1, devEntities = [''fan1'']\<rparr> init_capabilities"
  have once: "identifyCapabilities fan None = Inr (Some cs)"
    unfolding fan_def cs_def by code_simp
  have fields: "lower (deviceType fan) = ''exhaust''" "deviceName fan = ''fan1''"
    "deviceName fan \<noteq> ''ogb''"
    by (simp_all add: fan_def new_device_def lower_def lower_char_def)
  have mem: "(''canExhaust'', [''exhaust'']) \<in> set capMapping"
    by (simp add: capMapping_def)
  have init: "map_of (start_caps None) ''canExhaust'' = Some \<lparr>state = False, count = 0, devEntities = []\<rparr>"
    by (simp add: start_caps_def init_capabilities_def capMapping_def)
  note inst = C6_idempotent_registration [where ds = "[fan, fan]" and d = fan and store = None
      and store' = "Some cs" and cap = "''canExhaust''" and dts = "[''exhaust'']"
      and c = "\<lparr>state = False, count = 0, devEntities = []\<rparr>"]
  from inst once have twice: "identifyCapabilities fan (Some cs) = Inr (Some cs)"
    by blast
  with once have all: "register_all [fan, fan] None = Inr (Some cs)"
    by simp
  have "store_inv None"
    by (simp add: store_inv_def)
  with inst once have inv: "store_inv (Some cs)"
    by blast
  from inst fields mem init once have entry: "map_of cs ''canExhaust'' =
      Some \<lparr>state = True, count = 1, devEntities = [''fan1'']\<rparr>"
    by (simp add: lower_literals)
  from inst all mem have "names_of (Some cs) ''canExhaust'' =
      {deviceName d | d. d \<in> set [fan, fan] \<and> deviceName d \<noteq> ''ogb'' \<and>
         lower (deviceType d) \<in> set (map lower [''exhaust''])}"
    by fastforce
  also have "\<dots> = {''fan1''}"
    using fields by (auto simp: lower_literals)
  finally have names: "names_of (Some cs) ''canExhaust'' = {''fan1''}" .
  from once all inv entry names show ?thesis
    by (simp add: fan_def cs_def)
qed

subsection \<open>C7: rate limit of \<^verbatim>\<open>turn_on\<close>\<close>

lemma on_step_single:
  assumes "on_step h kw b p i d = (d', es, out)"
    and "deviceType d \<noteq> ''Ventilation''" and "deviceType d \<notin> set light_types"
  shows "length es = 1 \<and> out \<noteq> Next"
  using assms unfolding on_step_def
  by (auto simp: call_then_def light_types_def split: if_splits)

text \<open>
  C7, as stated, fails: the two calls do not end in exactly one service call for every
  actuator. A Ventilation device with two switch entities gets one call per entity from
  the first \<^verbatim>\<open>turn_on\<close>; the second \<^verbatim>\<open>turn_on\<close>, one second later, is rejected; two
  service calls were made.
\<close>

theorem C7_rate_limit_counterexample:
  "length (snd (turn_on quiet_hass 1000 no_kwargs
      ((new_device ''vent'' ''Ventilation'')\<lparr>
         switches := [\<lparr> entity_id = ''switch.vent_a'', value = PStr ''off'', platform = ''esphome'' \<rparr>,
                      \<lparr> entity_id = ''switch.vent_b'', value = PStr ''off'', platform = ''esphome'' \<rparr>] \<rparr>)) @
    snd (turn_on quiet_hass 1001 no_kwargs
      (fst (turn_on quiet_hass 1000 no_kwargs
        ((new_device ''vent'' ''Ventilation'')\<lparr>
           switches := [\<lparr> entity_id = ''switch.vent_a'', value = PStr ''off'', platform = ''esphome'' \<rparr>,
                        \<lparr> entity_id = ''switch.vent_b'', value = PStr ''off'', platform = ''esphome'' \<rparr>] \<rparr>))))) = 2"
  by code_simp

text \<open>
  C7, amended. Let \<^verbatim>\<open>turn_on\<close> be called at \<open>t1\<close> and again, on the resulting device, at
  \<open>t2\<close> with \<open>t2 - t1 < 3\<close>. Then at most one of the two calls reaches the host. When the
  first call is accepted (device online, no accepted call in the 3 seconds before), the
  second one makes no service call and leaves the device as it is, so that the two calls
  together make the service calls of the first alone: exactly one for a device that is
  not an AcInfinity device, not a Ventilation and not a light, and has a switch entity.
\<close>

theorem C7_rate_limit_amended:
  "t2 - t1 < 3 \<and> turn_on h1 t1 kw1 d = (d1, es1) \<and> turn_on h2 t2 kw2 d1 = (d2, es2) \<longrightarrow>
     (es1 = [] \<or> es2 = []) \<and>
     (accepted h1 t1 d \<longrightarrow> es2 = [] \<and> d2 = d1) \<and>
     (accepted h1 t1 d \<and> \<not> isAcInfinDev d \<and> switches d \<noteq> [] \<and>
      deviceType d \<noteq> ''Ventilation'' \<and> deviceType d \<notin> set light_types \<longrightarrow>
        length (es1 @ es2) = 1)"
proof
  assume a: "t2 - t1 < 3 \<and> turn_on h1 t1 kw1 d = (d1, es1) \<and> turn_on h2 t2 kw2 d1 = (d2, es2)"
  have second: "es2 = [] \<and> d2 = d1" if "accepted h1 t1 d"
  proof -
    from a have c1: "turn_on h1 t1 kw1 d = (d1, es1)" and lt: "t2 - t1 < 3"
      and c2: "turn_on h2 t2 kw2 d1 = (d2, es2)"
      by simp_all
    from turn_on_accepted [OF that c1]
    have l: "last_turn_on_time d1 = Some t1" and i: "in_active_control d1 = False"
      by simp_all
    have "turn_on h2 t2 kw2 d1 = (d1, [])"
      using l lt i by (rule turn_on_too_soon)
    with c2 show ?thesis by simp
  qed
  have first: "es1 = []" if "\<not> accepted h1 t1 d"
    using that a by (simp add: turn_on_rejected)
  have one: "length es1 = 1"
    if acc: "accepted h1 t1 d" and std: "\<not> isAcInfinDev d" "switches d \<noteq> []"
      "deviceType d \<noteq> ''Ventilation''" "deviceType d \<notin> set light_types"
  proof -
    define d0 where "d0 = d\<lparr>in_active_control := True, last_turn_on_time := Some t1\<rparr>"
    obtain sw rest where sw: "switches d = sw # rest"
      using std(2) by (cases "switches d") auto
    obtain d' es out where step: "on_step h1 kw1 (effective_brightness kw1 d0) (effective_percentage kw1 d0)
        (entity_id sw) d0 = (d', es, out)"
      by (metis prod_cases3)
    with std have l: "length es = 1 \<and> out \<noteq> Next"
      by (intro on_step_single [OF step]) (simp_all add: d0_def)
    then have "run_loop (on_step h1 kw1 (effective_brightness kw1 d0) (effective_percentage kw1 d0))
        (map entity_id (switches d0)) d0 = (d', es, out)"
      using step sw by (cases out) (simp_all add: d0_def)
    with std(1) have "turn_on_body h1 kw1 d0 = (d', es, out)"
      by (simp add: turn_on_body_def d0_def)
    with acc a have "es1 = es"
      by (auto simp: turn_on_def accepted_def d0_def)
    with l show ?thesis by simp
  qed
  show "(es1 = [] \<or> es2 = []) \<and>
     (accepted h1 t1 d \<longrightarrow> es2 = [] \<and> d2 = d1) \<and>
     (accepted h1 t1 d \<and> \<not> isAcInfinDev d \<and> switches d \<noteq> [] \<and>
      deviceType d \<noteq> ''Ventilation'' \<and> deviceType d \<notin> set light_types \<longrightarrow>
        length (es1 @ es2) = 1)"
    using first second one by auto
qed

text \<open>
  The scenario of the specification on a dimmable exhaust fan at duty cycle 60 with one
  \<^verbatim>\<open>fan.\<close> entity: the call at second 1000 sets the percentage, the call at second 1001 does
  nothing.
\<close>

theorem C7_rate_limit_amended_witness:
  "turn_on quiet_hass 1000 no_kwargs
     ((new_device ''fan1'' ''Exhaust'')\<lparr> isDimmable := True, dutyCycle := Some 60,
        switches := [\<lparr> entity_id = ''fan.fan1'', value = PStr ''off'', platform = ''esphome'' \<rparr>] \<rparr>) =
     ((new_device ''fan1'' ''Exhaust'')\<lparr> isDimmable := True, dutyCycle := Some 60,
        switches := [\<lparr> entity_id = ''fan.fan1'', value = PStr ''off'', platform = ''esphome'' \<rparr>],
        isRunning := Some True, last_turn_on_time := Some 1000 \<rparr>,
      [Call (Service ''fan'' ''set_percentage'' ''fan.fan1'' (DataPercentage 60))]) \<and>
   turn_on quiet_hass 1001 no_kwargs
     ((new_device ''fan1'' ''Exhaust'')\<lparr> isDimmable := True, dutyCycle := Some 60,
        switches := [\<lparr> entity_id = ''fan.fan1'', value = PStr ''off'', platform = ''esphome'' \<rparr>],
        isRunning := Some True, last_turn_on_time := Some 1000 \<rparr>) =
     ((new_device ''fan1'' ''Exhaust'')\<lparr> isDimmable := True, dutyCycle := Some 60,
        switches := [\<lparr> entity_id = ''fan.fan1'', value = PStr ''off'', platform = ''esphome'' \<rparr>],
        isRunning := Some True, last_turn_on_time := Some 1000 \<rparr>, [])"
proof -
  define d where "d = (new_device ''fan1'' ''Exhaust'')\<lparr> isDimmable := True, dutyCycle := Some 60,
        switches := [\<lparr> entity_id = ''fan.fan1'', value = PStr ''off'', platform = ''esphome'' \<rparr>] \<rparr>"
  define d1 where "d1 = d\<lparr> isRunning := Some True, last_turn_on_time := Some 1000 \<rparr>"
  have first: "turn_on quiet_hass 1000 no_kwargs d =
      (d1, [Call (Service ''fan'' ''set_percentage'' ''fan.fan1'' (DataPercentage 60))])"
    unfolding d_def d1_def by code_simp
  obtain d2 es2 where second: "turn_on quiet_hass 1001 no_kwargs d1 = (d2, es2)"
    by (cases "turn_on quiet_hass 1001 no_kwargs d1") auto
  have acc: "accepted quiet_hass 1000 d"
    by (simp add: accepted_def is_device_online_def quiet_hass_def d_def new_device_def)
  have "(1001::real) - 1000 < 3 \<and>
      turn_on quiet_hass 1000 no_kwargs d =
        (d1, [Call (Service ''fan'' ''set_percentage'' ''fan.fan1'' (DataPercentage 60))]) \<and>
      turn_on quiet_hass 1001 no_kwargs d1 = (d2, es2)"
    using first second by simp
  from mp [OF C7_rate_limit_amended this] acc have "es2 = [] \<and> d2 = d1"
    by blast
  with second have "turn_on quiet_hass 1001 no_kwargs d1 = (d1, [])"
    by simp
  with first show ?thesis
    by (simp add: d_def d1_def)
qed

subsection \<open>C8: humidity hysteresis\<close>

lemma control_light_target:
  "control_light m = Inr cs \<Longrightarrow> c \<in> set cs \<Longrightarrow> command_target c = ''light''"
  by (auto simp: control_light_def split: option.splits if_splits)

lemma control_fan_target:
  "control_fan cap m key t = Inr cs \<Longrightarrow> c \<in> set cs \<Longrightarrow> command_target c = key"
  by (auto simp: control_fan_def split: option.splits if_splits)

lemma control_heater_target:
  "control_heater m sd = Inr cs \<Longrightarrow> c \<in> set cs \<Longrightarrow> command_target c = ''heater''"
  by (auto simp: control_heater_def Let_def split: option.splits if_splits)

lemma filter_none: "(\<And>c. c \<in> set cs \<Longrightarrow> \<not> P c) \<Longrightarrow> filter P cs = []"
  by (induction cs) auto

lemma filter_all: "(\<And>c. c \<in> set cs \<Longrightarrow> P c) \<Longrightarrow> filter P cs = cs"
  by (induction cs) auto

lemma control_humidity_target:
  "control_humidity m sd = Inr cs \<Longrightarrow> c \<in> set cs \<Longrightarrow>
   command_target c \<in> {''humidifier'', ''dehumidifier''}"
  by (auto simp: control_humidity_def Let_def split: option.splits if_splits)

text \<open>
  The humidity section by itself. Take a cycle in which the light and fan sections raise
  nothing and the current humidity \<open>hc\<close> and the humidity target \<open>ht\<close> are numbers. Then
  the commands given to the humidifier and the dehumidifier are exactly these: when
  \<open>hc - ht < -5\<close>, turn on the humidifier and turn off the dehumidifier; when
  \<open>hc - ht > 5\<close>, turn on the dehumidifier and turn off the humidifier; none within the
  band (each command only for a device that is managed).
\<close>

lemma humidity_section_reached:
  "control_light m = Inr c1 \<and>
   control_fan cap m ''exhaust'' (exhaust_speed (targets m)) = Inr c2 \<and>
   control_fan cap m ''intake'' (intake_speed (targets m)) = Inr c3 \<and>
   py_or (tent_hum sd) (humidity sd) = Some hc \<and> humidity_target (targets m) = Some ht \<longrightarrow>
   filter (\<lambda>c. command_target c \<in> {''humidifier'', ''dehumidifier''})
       (fst (execute_direct_control cap m sd)) =
     (if hc - ht < - 5 then
        (if map_of (devices m) ''humidifier'' \<noteq> None then [TurnOn ''humidifier'' no_kwargs] else []) @
        (if map_of (devices m) ''dehumidifier'' \<noteq> None then [TurnOff ''dehumidifier''] else [])
      else if hc - ht > 5 then
        (if map_of (devices m) ''dehumidifier'' \<noteq> None then [TurnOn ''dehumidifier'' no_kwargs] else []) @
        (if map_of (devices m) ''humidifier'' \<noteq> None then [TurnOff ''humidifier''] else [])
      else [])"
proof
  let ?P = "\<lambda>c. command_target c \<in> {''humidifier'', ''dehumidifier''}"
  let ?H = "(if hc - ht < - 5 then
        (if map_of (devices m) ''humidifier'' \<noteq> None then [TurnOn ''humidifier'' no_kwargs] else []) @
        (if map_of (devices m) ''dehumidifier'' \<noteq> None then [TurnOff ''dehumidifier''] else [])
      else if hc - ht > 5 then
        (if map_of (devices m) ''dehumidifier'' \<noteq> None then [TurnOn ''dehumidifier'' no_kwargs] else []) @
        (if map_of (devices m) ''humidifier'' \<noteq> None then [TurnOff ''humidifier''] else [])
      else [])"
  assume a: "control_light m = Inr c1 \<and>
   control_fan cap m ''exhaust'' (exhaust_speed (targets m)) = Inr c2 \<and>
   control_fan cap m ''intake'' (intake_speed (targets m)) = Inr c3 \<and>
   py_or (tent_hum sd) (humidity sd) = Some hc \<and> humidity_target (targets m) = Some ht"
  then have hum: "control_humidity m sd = Inr ?H"
    by (simp add: control_humidity_def Let_def)
  have f1: "filter ?P c1 = []"
    using a by (intro filter_none) (auto dest: control_light_target)
  have f2: "filter ?P c2 = []"
    using a by (intro filter_none) (auto dest: control_fan_target)
  have f3: "filter ?P c3 = []"
    using a by (intro filter_none) (auto dest: control_fan_target)
  have f4: "filter ?P ?H = ?H"
    using hum by (intro filter_all) (rule control_humidity_target)
  have f5: "filter ?P (fst (in_sequence [control_heater m sd])) = []"
  proof (cases "control_heater m sd")
    case (Inl e)
    then show ?thesis by simp
  next
    case (Inr cs)
    then have "filter ?P cs = []"
      by (intro filter_none) (auto dest: control_heater_target)
    with Inr show ?thesis by simp
  qed
  have "fst (execute_direct_control cap m sd) =
      c1 @ c2 @ c3 @ ?H @ fst (in_sequence [control_heater m sd])"
    using a hum by (simp add: execute_direct_control_def split: prod.splits)
  then show "filter ?P (fst (execute_direct_control cap m sd)) = ?H"
    using f1 f2 f3 f4 f5 by (simp only: filter_append append_Nil append_Nil2)
qed

text \<open>
  C8 at a failing input. The manager holds a light as \<^verbatim>\<open>Device.__init__\<close> leaves it
  (voltage \<^verbatim>\<open>None\<close>), a humidifier and a dehumidifier; the light target is 80 and the
  humidity target 60; the humidity is 50, more than 5 below the target. The light
  section computes \<^verbatim>\<open>abs(current_intensity - target_intensity)\<close> outside of its \<^verbatim>\<open>try\<close>: the
  \<^verbatim>\<open>TypeError\<close> ends the cycle before the humidity section, and neither the humidifier nor
  the dehumidifier gets a command. Without the light under the manager, the same cycle
  turns the humidifier on and the dehumidifier off.
\<close>

theorem C8_cycle_ends_before_humidity:
  "execute_direct_control isDimmable
     \<lparr> plantStage = None, plantStages = None, vpd_perfection = None, vpd_perfectMin = None,
       vpd_perfectMax = None, prediction_window_minutes = 5, outside_ambient_inertia = 7/10,
       sensor_history = [],
       targets = \<lparr> light_intensity = Some 80, exhaust_speed = Some 50, intake_speed = Some 50,
                   temperature_target = Some 24, humidity_target = Some 60 \<rparr>,
       predictive_adjustments = None,
       devices = [(''light'', new_device ''lamp'' ''Light''),
                  (''humidifier'', new_device ''hum1'' ''Humidifier''),
                  (''dehumidifier'', new_device ''dehum1'' ''Dehumidifier'')],
       control_active = True \<rparr>
     \<lparr> temperature = Some 24, humidity = None, vpd = Some 1, co2 = None,
       tent_light_intensity = None, tent_temp = None, tent_hum = Some 50, ambient_temp = None,
       ambient_hum = None, outside_temp = None, outside_hum = None \<rparr> =
     ([], Some TypeError) \<and>
   execute_direct_control isDimmable
     \<lparr> plantStage = None, plantStages = None, vpd_perfection = None, vpd_perfectMin = None,
       vpd_perfectMax = None, prediction_window_minutes = 5, outside_ambient_inertia = 7/10,
       sensor_history = [],
       targets = \<lparr> light_intensity = Some 80, exhaust_speed = Some 50, intake_speed = Some 50,
                   temperature_target = Some 24, humidity_target = Some 60 \<rparr>,
       predictive_adjustments = None,
       devices = [(''humidifier'', new_device ''hum1'' ''Humidifier''),
                  (''dehumidifier'', new_device ''dehum1'' ''Dehumidifier'')],
       control_active = True \<rparr>
     \<lparr> temperature = Some 24, humidity = None, vpd = Some 1, co2 = None,
       tent_light_intensity = None, tent_temp = None, tent_hum = Some 50, ambient_temp = None,
       ambient_hum = None, outside_temp = None, outside_hum = None \<rparr> =
     ([TurnOn ''humidifier'' no_kwargs, TurnOff ''dehumidifier''], None)"
  by code_simp

subsection \<open>C9: invalid feedback is skipped\<close>






text \<open>An infinite reading: \<^verbatim>\<open>int\<close> raises an \<^verbatim>\<open>OverflowError\<close>, which \<^verbatim>\<open>convert_to_int\<close> does not catch.\<close>

lemma infinite_feedback_raises:
  assumes "\<not> in_active_control d" and "isDimmable d" and "sensors d = e # rest"
    and "relevant_sensor e" and "value e = PFloat Inf"
  shows "checkForControlValue fl d = Inl OverflowError"
  using assms
  by (simp add: checkForControlValue_def sensor_step_def convert_to_int_def to_float_def)




subsection \<open>C10: turning off a dimmable Exhaust, Intake or CO2 device\<close>

lemma run_loop_off_step_dimmable:
  assumes "deviceType d \<in> {''Exhaust'', ''Intake'', ''CO2''}" and "isDimmable d"
  shows "\<exists>out. run_loop (off_step h) ids d = (d, [], out)"
proof (cases ids)
  case Nil
  then show ?thesis by simp
next
  case (Cons i rest)
  from assms have "off_step h i d = (d, [], Return)"
    by (auto simp: off_step_def)
  with Cons show ?thesis by simp
qed

lemma turn_off_dimmable:
  assumes "\<not> isAcInfinDev d" and "deviceType d \<in> {''Exhaust'', ''Intake'', ''CO2''}" and "isDimmable d"
  shows "turn_off h d = (d, [])"
proof -
  from assms(2,3) obtain out where "run_loop (off_step h) (map entity_id (switches d)) d = (d, [], out)"
    using run_loop_off_step_dimmable by blast
  with assms(1) show ?thesis
    by (simp add: turn_off_def)
qed

lemma stop_devices_unchanged:
  "list_all (\<lambda>(name, dev). turn_off h dev = (dev, [])) devs \<Longrightarrow> stop_devices h devs = (devs, [])"
  by (induction devs) auto

lemma stop_devices_keeps:
  "(name, dev) \<in> set devs \<Longrightarrow> turn_off h dev = (dev, []) \<Longrightarrow>
   (name, dev) \<in> set (fst (stop_devices h devs))"
  by (induction devs) (auto split: prod.splits)

text \<open>
  C10. For a device of kind Exhaust, Intake or CO2 that is dimmable and not an AcInfinity
  device, \<^verbatim>\<open>turn_off\<close> issues no service call and returns the device as it was (running
  flag, duty cycle and every other attribute). So \<^verbatim>\<open>emergency_stop\<close> leaves every such
  managed device as it was, and when all managed devices are such, it issues no service
  call at all and only ends the control loop.
\<close>

theorem C10_dimmable_fan_never_turned_off:
  "\<not> isAcInfinDev d \<and> deviceType d \<in> {''Exhaust'', ''Intake'', ''CO2''} \<and> isDimmable d \<longrightarrow>
     turn_off h d = (d, []) \<and>
     ((name, d) \<in> set (devices m) \<longrightarrow> (name, d) \<in> set (devices (fst (emergency_stop h m)))) \<and>
     (list_all (\<lambda>(n, dev). \<not> isAcInfinDev dev \<and> deviceType dev \<in> {''Exhaust'', ''Intake'', ''CO2''} \<and>
                            isDimmable dev) (devices m) \<longrightarrow>
        emergency_stop h m = (m\<lparr>control_active := False\<rparr>, []))"
proof (intro impI conjI)
  assume a: "\<not> isAcInfinDev d \<and> deviceType d \<in> {''Exhaust'', ''Intake'', ''CO2''} \<and> isDimmable d"
  then show off: "turn_off h d = (d, [])"
    by (simp add: turn_off_dimmable)
  {
    assume "(name, d) \<in> set (devices m)"
    then have "(name, d) \<in> set (fst (stop_devices h (devices m)))"
      using off by (rule stop_devices_keeps)
    then show "(name, d) \<in> set (devices (fst (emergency_stop h m)))"
      by (cases "stop_devices h (devices m)") (simp add: emergency_stop_def)
  }
  {
    assume "list_all (\<lambda>(n, dev). \<not> isAcInfinDev dev \<and> deviceType dev \<in> {''Exhaust'', ''Intake'', ''CO2''} \<and>
                            isDimmable dev) (devices m)"
    then have "list_all (\<lambda>(name, dev). turn_off h dev = (dev, [])) (devices m)"
      by (auto simp: list_all_iff turn_off_dimmable)
    then have "stop_devices h (devices m) = (devices m, [])"
      by (rule stop_devices_unchanged)
    then show "emergency_stop h m = (m\<lparr>control_active := False\<rparr>, [])"
      by (simp add: emergency_stop_def)
  }
qed

text \<open>
  A running dimmable exhaust fan at duty cycle 70 with one \<^verbatim>\<open>fan.\<close> entity, alone under a
  manager: after the emergency stop it is still marked running at 70, and nothing was
  sent to the host.
\<close>

theorem C10_dimmable_fan_never_turned_off_witness:
  "turn_off quiet_hass
     ((new_device ''fan1'' ''Exhaust'')\<lparr> isDimmable := True, isRunning := Some True, dutyCycle := Some 70,
        switches := [\<lparr> entity_id = ''fan.fan1'', value = PStr ''on'', platform = ''esphome'' \<rparr>] \<rparr>) =
     ((new_device ''fan1'' ''Exhaust'')\<lparr> isDimmable := True, isRunning := Some True, dutyCycle := Some 70,
        switches := [\<lparr> entity_id = ''fan.fan1'', value = PStr ''on'', platform = ''esphome'' \<rparr>] \<rparr>, []) \<and>
   emergency_stop quiet_hass
     \<lparr> plantStage = None, plantStages = None, vpd_perfection = None, vpd_perfectMin = None,
       vpd_perfectMax = None, prediction_window_minutes = 5, outside_ambient_inertia = 7/10,
       sensor_history = [],
       targets = \<lparr> light_intensity = None, exhaust_speed = None, intake_speed = None,
                   temperature_target = None, humidity_target = None \<rparr>,
       predictive_adjustments = None,
       devices = [(''exhaust'',
         (new_device ''fan1'' ''Exhaust'')\<lparr> isDimmable := True, isRunning := Some True, dutyCycle := Some 70,
            switches := [\<lparr> entity_id = ''fan.fan1'', value = PStr ''on'', platform = ''esphome'' \<rparr>] \<rparr>)],
       control_active = True \<rparr> =
     (\<lparr> plantStage = None, plantStages = None, vpd_perfection = None, vpd_perfectMin = None,
       vpd_perfectMax = None, prediction_window_minutes = 5, outside_ambient_inertia = 7/10,
       sensor_history = [],
       targets = \<lparr> light_intensity = None, exhaust_speed = None, intake_speed = None,
                   temperature_target = None, humidity_target = None \<rparr>,
       predictive_adjustments = None,
       devices = [(''exhaust'',
         (new_device ''fan1'' ''Exhaust'')\<lparr> isDimmable := True, isRunning := Some True, dutyCycle := Some 70,
            switches := [\<lparr> entity_id = ''fan.fan1'', value = PStr ''on'', platform = ''esphome'' \<rparr>] \<rparr>)],
       control_active = False \<rparr>, [])"
proof -
  define d where "d = (new_device ''fan1'' ''Exhaust'')\<lparr> isDimmable := True, isRunning := Some True,
        dutyCycle := Some 70,
        switches := [\<lparr> entity_id = ''fan.fan1'', value = PStr ''on'', platform = ''esphome'' \<rparr>] \<rparr>"
  define m where "m = \<lparr> plantStage = None, plantStages = None, vpd_perfection = None, vpd_perfectMin = None,
       vpd_perfectMax = None, prediction_window_minutes = 5, outside_ambient_inertia = 7/10,
       sensor_history = [],
       targets = \<lparr> light_intensity = None, exhaust_speed = None, intake_speed = None,
                   temperature_target = None, humidity_target = None \<rparr>,
       predictive_adjustments = None, devices = [(''exhaust'', d)], control_active = True \<rparr>"
  have hyp: "\<not> isAcInfinDev d \<and> deviceType d \<in> {''Exhaust'', ''Intake'', ''CO2''} \<and> isDimmable d"
    by (simp add: d_def new_device_def)
  have all: "list_all (\<lambda>(n, dev). \<not> isAcInfinDev dev \<and> deviceType dev \<in> {''Exhaust'', ''Intake'', ''CO2''} \<and>
                            isDimmable dev) (devices m)"
    using hyp by (simp add: m_def)
  from mp [OF C10_dimmable_fan_never_turned_off hyp, of quiet_hass "''exhaust''" m] all
  have "turn_off quiet_hass d = (d, []) \<and> emergency_stop quiet_hass m = (m\<lparr>control_active := False\<rparr>, [])"
    by blast
  then show ?thesis
    by (simp add: d_def m_def)
qed

end
